theory Spec2Isabelle
  imports Complex_Main "HOL-Library.Word" "HOL-Library.Multiset"
begin

section \<open>Data model of the arena orchestrator\<close>

text \<open>
  The repository holds one class, \<^verbatim>\<open>ArenaOrchestrator\<close>, in several dated drafts
  (\<^verbatim>\<open>server/orchestrator.js\<close>, its backups and three unnamed parts). Each draft keeps
  its state in the fields set by its constructor and changes it from event handlers.
  The embedding keeps that shape: the object is a record, every handler is a function
  from the state before to the state after, and a JavaScript exception is the left
  summand of the result.
\<close>

subsection \<open>Labels, bytes and errors\<close>

datatype label = A | B

text \<open>\<^verbatim>\<open>const other = label === 'A' ? 'B' : 'A';\<close>\<close>

definition other :: "label \<Rightarrow> label" where
  "other label = (if label = A then B else A)"

type_synonym byte = "8 word"
type_synonym buffer = "byte list"

text \<open>
  The exceptions and error values the drafts can raise or emit.
  \<^verbatim>\<open>SyntaxError\<close> is what \<^verbatim>\<open>JSON.parse\<close> throws, \<^verbatim>\<open>TypeError\<close> a property
  read or method call on \<^verbatim>\<open>undefined\<close>/\<^verbatim>\<open>null\<close>, \<^verbatim>\<open>RangeError\<close> a
  \<^verbatim>\<open>Buffer.alloc\<close> beyond the runtime's maximum length; the others carry the
  messages the code builds itself.
\<close>

datatype js_error =
    SyntaxError
  | TypeError
  | RangeError
  | SessionNotReady label
  | ApiKeyNotSet
  | SocketNotOpen
  | WriteAfterEnd
  | NoSuchFile
  | TransportError string

subsection \<open>The module singleton: \<^verbatim>\<open>initOrchestrator\<close>\<close>

text \<open>
  \<^verbatim>\<open>
  class ArenaOrchestrator extends EventEmitter {
    constructor(apiKey, model = 'gpt-4o-realtime-preview') { ... }
  }
  let orchestrator = null;
  export function initOrchestrator() {
    if (!orchestrator) {
      const apiKey = process.env.OPENAI_API_KEY;
      if (!apiKey) throw new Error('OPENAI_API_KEY not set in environment');
      orchestrator = new ArenaOrchestrator(apiKey);
    }
    return orchestrator;
  }
  \<close>
  Objects have identity, so the module keeps a heap of the instances constructed so far
  and the variable \<^verbatim>\<open>orchestrator\<close> holds a reference (an index into the heap) or
  \<^verbatim>\<open>null\<close>. Of a new instance only the constructor arguments matter here.
  \<^verbatim>\<open>process.env\<close> maps a name to a string or to \<^verbatim>\<open>undefined\<close>.
\<close>

record arena_object =
  apiKey :: string
  model :: string

definition ArenaOrchestrator_new :: "string \<Rightarrow> arena_object" where
  "ArenaOrchestrator_new key = \<lparr>apiKey = key, model = ''gpt-4o-realtime-preview''\<rparr>"

record module_state =
  orchestrator :: "nat option"
  instances :: "arena_object list"

definition module_init :: module_state where
  "module_init = \<lparr>orchestrator = None, instances = []\<rparr>"

text \<open>JavaScript's \<^verbatim>\<open>!apiKey\<close> on a string or \<^verbatim>\<open>undefined\<close>: true for
  \<^verbatim>\<open>undefined\<close> and for the empty string.\<close>

definition falsy :: "string option \<Rightarrow> bool" where
  "falsy v = (case v of None \<Rightarrow> True | Some str \<Rightarrow> str = [])"

definition initOrchestrator ::
  "(string \<Rightarrow> string option) \<Rightarrow> module_state \<Rightarrow> (js_error + nat) \<times> module_state" where
  "initOrchestrator env m =
     (case orchestrator m of
        None \<Rightarrow>
          (let apiKey = env ''OPENAI_API_KEY'' in
           if falsy apiKey then (Inl ApiKeyNotSet, m)
           else
             (let ref = length (instances m) in
              (Inr ref,
               m\<lparr>instances := instances m @ [ArenaOrchestrator_new (the apiKey)],
                 orchestrator := Some ref\<rparr>)))
      | Some ref \<Rightarrow> (Inr ref, m))"

subsection \<open>The recording assembler of \<^verbatim>\<open>orchestrator_backup_0507.js\<close>\<close>

text \<open>
  The draft of 7 May records \<^verbatim>\<open>this.events[label].push({ t, data: chunk })\<close> with
  \<^verbatim>\<open>t = Date.now() - this.startTime\<close>, a whole number of milliseconds, and writes
  the files on \<^verbatim>\<open>stop()\<close>.
\<close>

record timed_event =
  ev_t :: int
  ev_data :: buffer

text \<open>
  A \<^verbatim>\<open>wav.Writer\<close> piped into a file: the header parameters, the buffers written so
  far in order, and whether \<^verbatim>\<open>end()\<close> was called. A write after \<^verbatim>\<open>end()\<close>
  adds nothing to the file and is an error of the stream.
\<close>

record wav_writer =
  wav_path :: string
  wav_sampleRate :: nat
  wav_channels :: nat
  wav_bitDepth :: nat
  written :: "buffer list"
  ended :: bool

definition wav_Writer_new :: "nat \<Rightarrow> nat \<Rightarrow> nat \<Rightarrow> string \<Rightarrow> wav_writer" where
  "wav_Writer_new rate chans depth file =
     \<lparr>wav_path = file, wav_sampleRate = rate, wav_channels = chans, wav_bitDepth = depth,
      written = [], ended = False\<rparr>"

definition wav_write :: "buffer \<Rightarrow> wav_writer \<Rightarrow> js_error + wav_writer" where
  "wav_write chunk w =
     (if ended w then Inl WriteAfterEnd else Inr (w\<lparr>written := written w @ [chunk]\<rparr>))"

definition wav_end :: "wav_writer \<Rightarrow> wav_writer" where
  "wav_end w = w\<lparr>ended := True\<rparr>"

text \<open>
  \<^verbatim>\<open>
  const sampleRate = 24000, bitDepth = 16, channels = 1;
  const bytesPerMs = (sampleRate * (bitDepth/8)) / 1000;
  \<close>
  JavaScript numbers are doubles. The cursor below is a sum of a whole number and a
  byte count divided by \<^verbatim>\<open>bytesPerMs\<close>; the model computes with exact rationals.
\<close>

definition sampleRate :: nat where "sampleRate = 24000"
definition bitDepth :: nat where "bitDepth = 16"
definition channels :: nat where "channels = 1"

definition bytesPerMs :: rat where
  "bytesPerMs = (of_nat sampleRate * (of_nat bitDepth / 8)) / 1000"

text \<open>The playing time of a buffer in milliseconds: \<^verbatim>\<open>data.length / bytesPerMs\<close>.\<close>

definition duration_ms :: "buffer \<Rightarrow> rat" where
  "duration_ms chunk = of_nat (length chunk) / bytesPerMs"

text \<open>\<^verbatim>\<open>Math.round\<close>: the nearest integer, a half rounded up.\<close>

definition Math_round :: "rat \<Rightarrow> int" where
  "Math_round x = \<lfloor>x + 1 / 2\<rfloor>"

text \<open>
  \<^verbatim>\<open>Buffer.alloc(n)\<close>: \<open>n\<close> zero bytes; a \<^verbatim>\<open>RangeError\<close> when the size is
  negative or above \<^verbatim>\<open>buffer.constants.MAX_LENGTH\<close>, which depends on the runtime
  and is the parameter \<open>kMaxLength\<close>.
\<close>

definition Buffer_alloc :: "nat \<Rightarrow> int \<Rightarrow> js_error + buffer" where
  "Buffer_alloc kMaxLength n =
     (if n < 0 \<or> int kMaxLength < n then Inl RangeError
      else Inr (replicate (nat n) 0))"

text \<open>
  \<^verbatim>\<open>
  const build = (events, name) => {
    const file = path.join(recordingsDir, name);
    const writer = new wav.Writer({ sampleRate, channels, bitDepth });
    writer.pipe(fs.createWriteStream(file));
    let cursor = 0;
    events.sort((a,b) => a.t - b.t);
    for (const {t, data} of events) {
      const gap = t - cursor;
      if (gap > 0) writer.write(Buffer.alloc(Math.round(gap * bytesPerMs)));
      writer.write(data);
      cursor = t + (data.length / bytesPerMs);
    }
    writer.end();
  };
  \<close>
  \<open>build_step\<close> is one pass through the loop body on the loop state (cursor, writer),
  \<open>build_loop\<close> the loop. \<^verbatim>\<open>Array.prototype.sort\<close> is stable, and so is
  \<^const>\<open>sort_key\<close>. The sort is in place, so \<open>build\<close> also returns the sorted array.
\<close>

definition build_step ::
  "nat \<Rightarrow> timed_event \<Rightarrow> rat \<times> wav_writer \<Rightarrow> js_error + rat \<times> wav_writer" where
  "build_step kMaxLength e st =
     (case st of (cursor, writer) \<Rightarrow>
        (let gap = of_int (ev_t e) - cursor in
         case (if gap > 0
               then (case Buffer_alloc kMaxLength (Math_round (gap * bytesPerMs)) of
                       Inl err \<Rightarrow> Inl err
                     | Inr silence \<Rightarrow> wav_write silence writer)
               else Inr writer) of
           Inl err \<Rightarrow> Inl err
         | Inr writer1 \<Rightarrow>
             (case wav_write (ev_data e) writer1 of
                Inl err \<Rightarrow> Inl err
              | Inr writer2 \<Rightarrow>
                  Inr (of_int (ev_t e) + duration_ms (ev_data e), writer2))))"

fun build_loop ::
  "nat \<Rightarrow> timed_event list \<Rightarrow> rat \<times> wav_writer \<Rightarrow> js_error + rat \<times> wav_writer" where
  "build_loop kMaxLength [] st = Inr st"
| "build_loop kMaxLength (e # es) st =
     (case build_step kMaxLength e st of
        Inl err \<Rightarrow> Inl err
      | Inr st' \<Rightarrow> build_loop kMaxLength es st')"

definition build ::
  "nat \<Rightarrow> timed_event list \<Rightarrow> string \<Rightarrow> timed_event list \<times> (js_error + wav_writer)" where
  "build kMaxLength events name =
     (let writer = wav_Writer_new sampleRate channels bitDepth name;
          sorted_events = sort_key ev_t events
      in (sorted_events,
          case build_loop kMaxLength sorted_events (0, writer) of
            Inl err \<Rightarrow> Inl err
          | Inr (cursor, writer') \<Rightarrow> Inr (wav_end writer')))"

text \<open>
  \<^verbatim>\<open>
  build(this.events.A, "sessionA_full.wav");
  build(this.events.B, "sessionB_full.wav");
  const merged = [...this.events.A, ...this.events.B].sort((a,b)=>a.t-b.t);
  build(merged, "conversation.wav");
  \<close>
  The first two calls have sorted \<^verbatim>\<open>this.events.A\<close> and \<^verbatim>\<open>this.events.B\<close> by the
  time \<^verbatim>\<open>merged\<close> is made. The result is the pair of the event arrays afterwards and
  either the exception that stopped the function or the three finished files.
\<close>

definition merged_events :: "timed_event list \<Rightarrow> timed_event list \<Rightarrow> timed_event list" where
  "merged_events eventsA eventsB = sort_key ev_t (eventsA @ eventsB)"

definition writeConversationFiles ::
  "nat \<Rightarrow> (label \<Rightarrow> timed_event list)
     \<Rightarrow> (label \<Rightarrow> timed_event list) \<times> (js_error + wav_writer list)" where
  "writeConversationFiles kMaxLength events =
     (case build kMaxLength (events A) ''sessionA_full.wav'' of (eventsA, resA) \<Rightarrow>
        (case resA of
           Inl err \<Rightarrow> (events(A := eventsA), Inl err)
         | Inr fileA \<Rightarrow>
             (case build kMaxLength (events B) ''sessionB_full.wav'' of (eventsB, resB) \<Rightarrow>
                (case resB of
                   Inl err \<Rightarrow> (events(A := eventsA, B := eventsB), Inl err)
                 | Inr fileB \<Rightarrow>
                     (let merged = merged_events eventsA eventsB in
                      case snd (build kMaxLength merged ''conversation.wav'') of
                        Inl err \<Rightarrow> (events(A := eventsA, B := eventsB), Inl err)
                      | Inr fileM \<Rightarrow>
                          (events(A := eventsA, B := eventsB), Inr [fileA, fileB, fileM]))))))"

text \<open>
  The loop's cursor is always a whole number of bytes when measured in bytes, that is, a
  multiple of \<open>1 / bytesPerMs\<close> milliseconds. The proofs below carry this as the loop
  invariant.
\<close>

definition on_grid :: "rat \<Rightarrow> bool" where
  "on_grid c = (\<exists>k::int. c * bytesPerMs = of_int k)"





subsection \<open>Sockets, messages and the orchestrator object\<close>

text \<open>
  The runtime functions the handlers call and the repository does not define:
  \<^verbatim>\<open>Buffer.from(b64, 'base64')\<close> and \<^verbatim>\<open>buffer.toString('base64')\<close>. They are
  parameters of the model.
\<close>

record runtime =
  from_base64 :: "string \<Rightarrow> buffer"
  to_base64 :: "buffer \<Rightarrow> string"

datatype ready_state = CONNECTING | OPEN | CLOSING | CLOSED

datatype promise_state = Pending | Fulfilled | Rejected js_error

text \<open>
  What the drafts send to the service. Every \<^verbatim>\<open>session.update\<close> selects pcm16 in
  and out and the modalities audio and text; the drafts differ in the voice and the
  turn detection, which the record keeps.
\<close>

record session_config =
  cfg_voice :: "string option"
  cfg_server_vad :: bool
  cfg_interrupt_response :: "bool option"

datatype client_msg =
    SessionUpdate session_config
  | InputAudioBufferAppend string
  | ResponseCreate "string option"

text \<open>
  One \<^verbatim>\<open>WebSocket\<close> made by \<^verbatim>\<open>_createSession(label)\<close>: the \<^verbatim>\<open>label\<close> and
  \<^verbatim>\<open>clientSessionId\<close> its handlers close over, its \<^verbatim>\<open>readyState\<close>, what was sent
  on it in order, and the state of the promise \<^verbatim>\<open>_createSession\<close> returned.
\<close>

record socket =
  sock_label :: label
  clientSessionId :: string
  readyState :: ready_state
  outbox :: "client_msg list"
  session_promise :: promise_state

text \<open>
  A raw inbound frame as \<^verbatim>\<open>JSON.parse\<close> sees it: text that does not parse, the
  value \<^verbatim>\<open>null\<close>, or any other value, of which the handlers read the fields below
  (a field that is absent reads as \<^verbatim>\<open>undefined\<close>, here \<open>None\<close>).
  \<open>m_session\<close> is \<^verbatim>\<open>msg.session\<close> with its \<^verbatim>\<open>id\<close>, \<open>m_payload\<close> is
  \<^verbatim>\<open>msg.payload\<close> with its \<^verbatim>\<open>item\<close> and the item's \<^verbatim>\<open>role\<close>.
\<close>

record msg =
  m_type :: "string option"
  m_session :: "string option option"
  m_data :: "string option"
  m_delta :: "string option"
  m_text :: "string option"
  m_payload :: "string option option option"

datatype raw_message = Malformed | JsonNull | JsonValue msg

definition JSON_parse :: "raw_message \<Rightarrow> js_error + msg option" where
  "JSON_parse raw =
     (case raw of
        Malformed \<Rightarrow> Inl SyntaxError
      | JsonNull \<Rightarrow> Inr None
      | JsonValue m \<Rightarrow> Inr (Some m))"

datatype track = Solo label | Combined

datatype log_event =
    Connected label string
  | SessionCreated label "string option"
  | SessionUpdateSent label
  | AudioChunk label nat
  | UserCommitted label
  | ResponseCreateSent label
  | SeedSent label
  | Stopped label
  | Closed label
  | OtherEvent label "string option" msg

text \<open>A pending \<^verbatim>\<open>start()\<close>: the two sockets it awaits and its own promise.\<close>

record start_call =
  call_sockA :: nat
  call_sockB :: nat
  call_outcome :: promise_state

text \<open>
  An item chained onto \<^verbatim>\<open>this.forwardQueues[other]\<close> by the draft in
  \<^verbatim>\<open>unnamed/part_002\<close>: the socket it will send on, the base64 text and the delay
  in milliseconds it then waits.
\<close>

record queued_forward =
  q_target :: nat
  q_audio :: string
  q_delayMs :: rat

text \<open>
  The orchestrator object. \<open>sockets\<close> is the heap of sockets created so far and
  \<^verbatim>\<open>this.sessions[label]\<close> holds a reference into it. \<open>log_stream\<close> and
  \<open>error_stream\<close> are what \<^verbatim>\<open>emit('log', ...)\<close> and \<^verbatim>\<open>emit('error', ...)\<close> have
  delivered to the listeners that \<^verbatim>\<open>server.js\<close> attaches at start-up.
  \<open>forwardQueues\<close> belongs to \<^verbatim>\<open>unnamed/part_002\<close>, \<open>transcripts\<close> and
  \<open>outputDir\<close> to \<^verbatim>\<open>unnamed/part_000\<close> and \<^verbatim>\<open>unnamed/part_001\<close>.
  \<open>seed_hello_pcm\<close> is the content of the file of that name, if it exists.
\<close>

record orch =
  sockets :: "socket list"
  sessions :: "label \<Rightarrow> nat option"
  wavWriters :: "track \<Rightarrow> wav_writer option"
  sessionIds :: "label \<Rightarrow> string option"
  forwardQueues :: "label \<Rightarrow> queued_forward list"
  transcripts :: "label \<Rightarrow> string"
  outputDir :: string
  start_calls :: "start_call list"
  log_stream :: "log_event list"
  error_stream :: "js_error list"
  seed_hello_pcm :: "buffer option"

definition emit_log :: "log_event \<Rightarrow> orch \<Rightarrow> orch" where
  "emit_log ev s = s\<lparr>log_stream := log_stream s @ [ev]\<rparr>"

definition emit_error :: "js_error \<Rightarrow> orch \<Rightarrow> orch" where
  "emit_error err s = s\<lparr>error_stream := error_stream s @ [err]\<rparr>"

definition label_name :: "label \<Rightarrow> string" where
  "label_name label = (case label of A \<Rightarrow> ''A'' | B \<Rightarrow> ''B'')"

text \<open>\<^verbatim>\<open>target?.readyState === WebSocket.OPEN\<close> for \<^verbatim>\<open>target = this.sessions[label]\<close>.\<close>

definition session_open :: "orch \<Rightarrow> label \<Rightarrow> bool" where
  "session_open s label =
     (case sessions s label of
        None \<Rightarrow> False
      | Some k \<Rightarrow> k < length (sockets s) \<and> readyState (sockets s ! k) = OPEN)"

text \<open>
  \<^verbatim>\<open>ws.send(JSON.stringify(m))\<close> of the \<^verbatim>\<open>ws\<close> library (version 8). On an open socket the
  message is transmitted (\<open>transmit\<close>). While the socket is still connecting the call
  throws. Once the socket is closing or closed the call returns normally and transmits
  nothing (the error goes to a callback, and the code passes none).
\<close>

definition transmit :: "nat \<Rightarrow> client_msg \<Rightarrow> orch \<Rightarrow> orch" where
  "transmit k m s =
     s\<lparr>sockets := (sockets s)[k := (sockets s ! k)\<lparr>outbox := outbox (sockets s ! k) @ [m]\<rparr>]\<rparr>"

definition ws_send :: "nat \<Rightarrow> client_msg \<Rightarrow> orch \<Rightarrow> js_error + orch" where
  "ws_send k m s =
     (if k < length (sockets s) \<and> readyState (sockets s ! k) = OPEN then Inr (transmit k m s)
      else if k < length (sockets s) \<and> readyState (sockets s ! k) \<noteq> CONNECTING then Inr s
      else Inl SocketNotOpen)"

text \<open>\<^verbatim>\<open>this.wavWriters[key].write(chunk)\<close>: a \<^verbatim>\<open>TypeError\<close> when there is no
  such writer.\<close>

definition writer_write :: "track \<Rightarrow> buffer \<Rightarrow> orch \<Rightarrow> js_error + orch" where
  "writer_write key chunk s =
     (case wavWriters s key of
        None \<Rightarrow> Inl TypeError
      | Some w \<Rightarrow>
          (case wav_write chunk w of
             Inl err \<Rightarrow> Inl err
           | Inr w' \<Rightarrow> Inr (s\<lparr>wavWriters := (wavWriters s)(key \<mapsto> w')\<rparr>)))"

text \<open>\<^verbatim>\<open>this.wavWriters[key]?.end()\<close>.\<close>

definition writer_end :: "track \<Rightarrow> orch \<Rightarrow> orch" where
  "writer_end key s =
     (case wavWriters s key of
        None \<Rightarrow> s
      | Some w \<Rightarrow> s\<lparr>wavWriters := (wavWriters s)(key \<mapsto> wav_end w)\<rparr>)"

text \<open>
  \<^verbatim>\<open>
  _createWavWriter(path) {
    const fileStream = fs.createWriteStream(path);
    const writer = new wav.Writer({ sampleRate: 24000, channels: 1, bitDepth: 16 });
    writer.pipe(fileStream);
    return writer;
  }
  \<close>
\<close>

definition createWavWriter :: "string \<Rightarrow> wav_writer" where
  "createWavWriter path = wav_Writer_new 24000 1 16 path"

text \<open>\<^verbatim>\<open>const b64 = msg.data ?? msg.delta;\<close>\<close>

definition audio_b64 :: "msg \<Rightarrow> string option" where
  "audio_b64 m = (case m_data m of Some d \<Rightarrow> Some d | None \<Rightarrow> m_delta m)"

text \<open>\<^verbatim>\<open>msg.type === 'response.audio_chunk' || msg.type === 'response.audio.delta'\<close>\<close>

definition is_audio_payload :: "msg \<Rightarrow> bool" where
  "is_audio_payload m =
     (m_type m = Some ''response.audio_chunk'' \<or> m_type m = Some ''response.audio.delta'')"

subsection \<open>\<^verbatim>\<open>server/orchestrator.js\<close>: sessions, start and stop\<close>

text \<open>
  \<^verbatim>\<open>_createSession(label)\<close> makes a socket (\<^verbatim>\<open>uuidv4()\<close> is the argument
  \<open>uuid\<close>), registers the handlers below on it and returns a pending promise.
\<close>

definition createSession :: "label \<Rightarrow> string \<Rightarrow> orch \<Rightarrow> orch" where
  "createSession label uuid s =
     s\<lparr>sockets := sockets s @
          [\<lparr>sock_label = label, clientSessionId = uuid, readyState = CONNECTING,
            outbox = [], session_promise = Pending\<rparr>]\<rparr>"

text \<open>
  \<^verbatim>\<open>
  _sendAudio(label, buffer) {
    const ws = this.sessions[label];
    if (ws?.readyState === WebSocket.OPEN) {
      ws.send(JSON.stringify({ type: 'input_audio_buffer.append',
                               audio: buffer.toString('base64') }));
      this.emit('log', { session: label, event: 'seed_sent' });
    } else {
      this.emit('error', new Error(`Session ${label} not ready`));
    }
  }
  \<close>
\<close>

definition sendAudio :: "runtime \<Rightarrow> label \<Rightarrow> buffer \<Rightarrow> orch \<Rightarrow> orch" where
  "sendAudio rt label buffer s =
     (case sessions s label of
        None \<Rightarrow> emit_error (SessionNotReady label) s
      | Some ws \<Rightarrow>
          if ws < length (sockets s) \<and> readyState (sockets s ! ws) = OPEN
          then emit_log (SeedSent label)
                 (transmit ws (InputAudioBufferAppend (to_base64 rt buffer)) s)
          else emit_error (SessionNotReady label) s)"

text \<open>
  \<^verbatim>\<open>
  async start() {
    await Promise.all([ this._createSession('A'), this._createSession('B') ]);
    const seed = fs.readFileSync('seed_hello.pcm');
    this._sendAudio('A', seed);
  }
  \<close>
  The call itself creates the two sockets and suspends; there is no test of whether a
  conversation is already running. \<open>start_resume\<close> is the part after the
  \<^verbatim>\<open>await\<close>. It runs when both session promises are fulfilled; when one is rejected
  the promise of \<^verbatim>\<open>start()\<close> is rejected, and \<^verbatim>\<open>server.js\<close> catches a rejection
  with \<^verbatim>\<open>orchestrator.start().catch((err) => orchestrator.emit("error", err))\<close>.
\<close>

definition start :: "string \<Rightarrow> string \<Rightarrow> orch \<Rightarrow> orch" where
  "start uuidA uuidB s =
     (let a = length (sockets s);
          s1 = createSession A uuidA s;
          b = length (sockets s1);
          s2 = createSession B uuidB s1
      in s2\<lparr>start_calls := start_calls s2 @
               [\<lparr>call_sockA = a, call_sockB = b, call_outcome = Pending\<rparr>]\<rparr>)"

definition start_resume :: "runtime \<Rightarrow> orch \<Rightarrow> promise_state \<times> orch" where
  "start_resume rt s =
     (case seed_hello_pcm s of
        None \<Rightarrow> (Rejected NoSuchFile, s)
      | Some seed \<Rightarrow> (Fulfilled, sendAudio rt A seed s))"

definition Promise_all :: "promise_state \<Rightarrow> promise_state \<Rightarrow> promise_state" where
  "Promise_all p q =
     (case p of
        Rejected err \<Rightarrow> Rejected err
      | Pending \<Rightarrow> (case q of Rejected err \<Rightarrow> Rejected err | _ \<Rightarrow> Pending)
      | Fulfilled \<Rightarrow> q)"

definition set_outcome :: "nat \<Rightarrow> promise_state \<Rightarrow> orch \<Rightarrow> orch" where
  "set_outcome i p s =
     s\<lparr>start_calls := (start_calls s)[i := (start_calls s ! i)\<lparr>call_outcome := p\<rparr>]\<rparr>"

definition settle_call :: "runtime \<Rightarrow> nat \<Rightarrow> orch \<Rightarrow> orch" where
  "settle_call rt i s =
     (let c = start_calls s ! i in
      if call_outcome c \<noteq> Pending then s
      else
        (case Promise_all (session_promise (sockets s ! call_sockA c))
                          (session_promise (sockets s ! call_sockB c)) of
           Pending \<Rightarrow> s
         | Rejected err \<Rightarrow> emit_error err (set_outcome i (Rejected err) s)
         | Fulfilled \<Rightarrow>
             (case start_resume rt s of
                (Rejected err, s') \<Rightarrow> emit_error err (set_outcome i (Rejected err) s')
              | (outcome, s') \<Rightarrow> set_outcome i outcome s')))"

definition settle_starts :: "runtime \<Rightarrow> orch \<Rightarrow> orch" where
  "settle_starts rt s = fold (settle_call rt) [0..<length (start_calls s)] s"

text \<open>
  \<^verbatim>\<open>resolve()\<close> and \<^verbatim>\<open>reject(err)\<close> of the promise of socket \<open>ws\<close>; a settled
  promise stays as it is. The runtime resumes \<^verbatim>\<open>start()\<close> in a microtask after the
  handler that settled the second promise has returned. The model takes every frame to
  be handled in a tick of its own and so runs the rest of \<^verbatim>\<open>start()\<close> at the end of
  that handler's step; were several frames dispatched within one tick, the runtime would
  handle them before the seed is sent.
\<close>

definition set_promise :: "nat \<Rightarrow> promise_state \<Rightarrow> orch \<Rightarrow> orch" where
  "set_promise ws p s =
     s\<lparr>sockets := (sockets s)[ws := (sockets s ! ws)\<lparr>session_promise := p\<rparr>]\<rparr>"

definition resolve :: "runtime \<Rightarrow> nat \<Rightarrow> orch \<Rightarrow> orch" where
  "resolve rt ws s =
     (if session_promise (sockets s ! ws) = Pending
      then settle_starts rt (set_promise ws Fulfilled s)
      else s)"

definition reject :: "runtime \<Rightarrow> nat \<Rightarrow> js_error \<Rightarrow> orch \<Rightarrow> orch" where
  "reject rt ws err s =
     (if session_promise (sockets s ! ws) = Pending
      then settle_starts rt (set_promise ws (Rejected err) s)
      else s)"

text \<open>
  \<^verbatim>\<open>
  ws.once('open', () => {
    this.emit('log', { session: label, event: 'connected', clientSessionId });
  });
  \<close>
\<close>

definition on_open :: "nat \<Rightarrow> orch \<Rightarrow> orch" where
  "on_open ws s =
     emit_log (Connected (sock_label (sockets s ! ws)) (clientSessionId (sockets s ! ws)))
       (s\<lparr>sockets := (sockets s)[ws := (sockets s ! ws)\<lparr>readyState := OPEN\<rparr>]\<rparr>)"

text \<open>
  The \<^verbatim>\<open>'message'\<close> handler of \<^verbatim>\<open>server/orchestrator.js\<close>, lines 52 to 112, for a
  frame arriving on socket \<open>ws\<close>:
  \<^verbatim>\<open>
  let msg;
  try { msg = JSON.parse(raw); }
  catch (err) { return this.emit('error', err); }
  if (msg.type === 'session.created') {
    const realSid = msg.session.id;
    this.sessionIds[label] = realSid;
    this.emit('log', { session: label, event: 'session.created', sessionId: realSid });
    ws.send(JSON.stringify({ type: 'session.update', session: { ... } }));
    this.wavWriters[label] = this._createWavWriter(`session${label}.wav`);
    this.sessions[label] = ws;
    resolve();
    return;
  }
  if (msg.type === 'response.audio_chunk' || msg.type === 'response.audio.delta') {
    const b64 = msg.data ?? msg.delta;
    const chunk = Buffer.from(b64, 'base64');
    this.wavWriters[label].write(chunk);
    const other = label === 'A' ? 'B' : 'A';
    const target = this.sessions[other];
    if (target?.readyState === WebSocket.OPEN) {
      target.send(JSON.stringify({ type: 'input_audio_buffer.append', audio: b64 }));
    }
    this.emit('log', { session: label, event: 'audio_chunk', byteLength: chunk.length });
    return;
  }
  if (msg.type === 'conversation.item.created') {
    const item = msg.payload?.item;
    if (item?.role === 'user') {
      this.emit('log', { session: label, event: 'user_committed' });
      ws.send(JSON.stringify({ type: 'response.create', session: this.sessionIds[label] }));
      this.emit('log', { session: label, event: 'response.create.sent' });
    }
    return;
  }
  this.emit('log', { session: label, event: msg.type, payload: msg });
  \<close>
\<close>

definition forward_if_open :: "label \<Rightarrow> string \<Rightarrow> orch \<Rightarrow> orch" where
  "forward_if_open target_label b64 s =
     (case sessions s target_label of
        None \<Rightarrow> s
      | Some target \<Rightarrow>
          if target < length (sockets s) \<and> readyState (sockets s ! target) = OPEN
          then transmit target (InputAudioBufferAppend b64) s
          else s)"

definition on_message :: "runtime \<Rightarrow> nat \<Rightarrow> raw_message \<Rightarrow> orch \<Rightarrow> js_error + orch" where
  "on_message rt ws raw s =
     (let label = sock_label (sockets s ! ws) in
      case JSON_parse raw of
        Inl err \<Rightarrow> Inr (emit_error err s)
      | Inr None \<Rightarrow> Inl TypeError
      | Inr (Some msg) \<Rightarrow>
          if m_type msg = Some ''session.created'' then
            (case m_session msg of
               None \<Rightarrow> Inl TypeError
             | Some realSid \<Rightarrow>
                 (let s1 = s\<lparr>sessionIds := (sessionIds s)(label := realSid)\<rparr>;
                      s2 = emit_log (SessionCreated label realSid) s1
                  in case ws_send ws
                            (SessionUpdate \<lparr>cfg_voice = None, cfg_server_vad = False,
                                            cfg_interrupt_response = None\<rparr>) s2 of
                       Inl err \<Rightarrow> Inl err
                     | Inr s3 \<Rightarrow>
                         (let s4 = s3\<lparr>wavWriters := (wavWriters s3)
                                      (Solo label \<mapsto>
                                         createWavWriter (''session'' @ label_name label @ ''.wav''))\<rparr>;
                              s5 = s4\<lparr>sessions := (sessions s4)(label \<mapsto> ws)\<rparr>
                          in Inr (resolve rt ws s5))))
          else if is_audio_payload msg then
            (case audio_b64 msg of
               None \<Rightarrow> Inl TypeError
             | Some b64 \<Rightarrow>
                 (let chunk = from_base64 rt b64 in
                  case writer_write (Solo label) chunk s of
                    Inl err \<Rightarrow> Inl err
                  | Inr s1 \<Rightarrow>
                      Inr (emit_log (AudioChunk label (length chunk))
                             (forward_if_open (other label) b64 s1))))
          else if m_type msg = Some ''conversation.item.created'' then
            (case m_payload msg of
               Some (Some (Some role)) \<Rightarrow>
                 if role = ''user'' then
                   (case ws_send ws (ResponseCreate (sessionIds s label))
                           (emit_log (UserCommitted label) s) of
                      Inl err \<Rightarrow> Inl err
                    | Inr s1 \<Rightarrow> Inr (emit_log (ResponseCreateSent label) s1))
                 else Inr s
             | _ \<Rightarrow> Inr s)
          else Inr (emit_log (OtherEvent label (m_type msg) msg) s))"

text \<open>
  \<^verbatim>\<open>
  ws.once('close', () => {
    this.wavWriters[label]?.end();
    this.emit('log', { session: label, event: 'closed' });
  });
  ws.on('error', err => { this.emit('error', err); reject(err); });
  \<close>
\<close>

definition on_close :: "nat \<Rightarrow> orch \<Rightarrow> orch" where
  "on_close ws s =
     (let label = sock_label (sockets s ! ws);
          s1 = s\<lparr>sockets := (sockets s)[ws := (sockets s ! ws)\<lparr>readyState := CLOSED\<rparr>]\<rparr>
      in emit_log (Closed label) (writer_end (Solo label) s1))"

definition on_error :: "runtime \<Rightarrow> nat \<Rightarrow> string \<Rightarrow> orch \<Rightarrow> orch" where
  "on_error rt ws err s = reject rt ws (TransportError err) (emit_error (TransportError err) s)"

text \<open>
  \<^verbatim>\<open>
  stop() {
    for (const label of ['A','B']) {
      const ws = this.sessions[label];
      const writer = this.wavWriters[label];
      if (ws?.readyState === WebSocket.OPEN) ws.close();
      writer?.end();
      this.emit('log', { session: label, event: 'stopped' });
    }
  }
  \<close>
\<close>

definition stop_label :: "label \<Rightarrow> orch \<Rightarrow> orch" where
  "stop_label label s =
     (let s1 = (case sessions s label of
                  None \<Rightarrow> s
                | Some ws \<Rightarrow>
                    if ws < length (sockets s) \<and> readyState (sockets s ! ws) = OPEN
                    then s\<lparr>sockets := (sockets s)[ws := (sockets s ! ws)\<lparr>readyState := CLOSING\<rparr>]\<rparr>
                    else s)
      in emit_log (Stopped label) (writer_end (Solo label) s1))"

definition stop :: "orch \<Rightarrow> orch" where
  "stop s = stop_label B (stop_label A s)"

text \<open>The object as the constructor leaves it, with the seed file given.\<close>

definition orch_new :: "buffer option \<Rightarrow> orch" where
  "orch_new seed =
     \<lparr>sockets = [], sessions = (\<lambda>label. None), wavWriters = (\<lambda>key. None),
      sessionIds = (\<lambda>label. None), forwardQueues = (\<lambda>label. []),
      transcripts = (\<lambda>label. []), outputDir = [], start_calls = [],
      log_stream = [], error_stream = [], seed_hello_pcm = seed\<rparr>"

text \<open>Handling a sequence of frames, each on its socket, stopping at an exception.\<close>

fun run_messages ::
  "(nat \<Rightarrow> raw_message \<Rightarrow> orch \<Rightarrow> js_error + orch) \<Rightarrow> (nat \<times> raw_message) list
     \<Rightarrow> orch \<Rightarrow> js_error + orch" where
  "run_messages handler [] s = Inr s"
| "run_messages handler ((ws, raw) # rest) s =
     (case handler ws raw s of
        Inl err \<Rightarrow> Inl err
      | Inr s' \<Rightarrow> run_messages handler rest s')"

subsection \<open>\<^verbatim>\<open>unnamed/part_002\<close>: the throttled forwarding queue\<close>

text \<open>
  The \<^verbatim>\<open>'message'\<close> handler of \<^verbatim>\<open>unnamed/part_002\<close>, lines 63 to 122. It parses as
  \<^verbatim>\<open>server/orchestrator.js\<close> does and then:
  \<^verbatim>\<open>
  if (msg.type === "session.created") {
    const sid = msg.session.id;
    this.sessionIds[label] = sid;
    this.emit("log", { session: label, event: "session.created", sessionId: sid });
    ws.send(JSON.stringify({ type: "session.update", session: { ...,
      turn_detection: { type: "server_vad", create_response: true } } }));
    this.emit("log", { session: label, event: "session.update.sent" });
    this.wavWriters[label] = this._createWavWriter(`session${label}.wav`);
    this.sessions[label] = ws;
    return resolve();
  }
  if (msg.type === "response.audio_chunk" || msg.type === "response.audio.delta") {
    const b64 = msg.data ?? msg.delta;
    const chunk = Buffer.from(b64, "base64");
    this.wavWriters[label].write(chunk);
    this.emit("log", { session: label, event: "audio_chunk", byteLength: chunk.length });
    const other = label === "A" ? "B" : "A";
    const target = this.sessions[other];
    if (target?.readyState === WebSocket.OPEN) {
      this.forwardQueues[other] = this.forwardQueues[other].then(() => {
        target.send(JSON.stringify({ type: "input_audio_buffer.append", audio: b64 }));
        const delayMs = (chunk.length / 48000) * 1000;
        return new Promise((res) => setTimeout(res, delayMs));
      });
    }
    return;
  }
  this.emit("log", { session: label, event: msg.type, payload: msg });
  \<close>
  The promise chain \<^verbatim>\<open>this.forwardQueues[other]\<close> is the list of the items chained
  onto it, in order. When the runtime runs them is not part of this model.
\<close>

definition delayMs :: "buffer \<Rightarrow> rat" where
  "delayMs chunk = (of_nat (length chunk) / 48000) * 1000"

definition enqueue_forward :: "label \<Rightarrow> string \<Rightarrow> buffer \<Rightarrow> orch \<Rightarrow> orch" where
  "enqueue_forward target_label b64 chunk s =
     (case sessions s target_label of
        None \<Rightarrow> s
      | Some target \<Rightarrow>
          if target < length (sockets s) \<and> readyState (sockets s ! target) = OPEN
          then s\<lparr>forwardQueues := (forwardQueues s)
                   (target_label := forwardQueues s target_label @
                      [\<lparr>q_target = target, q_audio = b64, q_delayMs = delayMs chunk\<rparr>])\<rparr>
          else s)"

definition on_message_part002 ::
  "runtime \<Rightarrow> nat \<Rightarrow> raw_message \<Rightarrow> orch \<Rightarrow> js_error + orch" where
  "on_message_part002 rt ws raw s =
     (let label = sock_label (sockets s ! ws) in
      case JSON_parse raw of
        Inl err \<Rightarrow> Inr (emit_error err s)
      | Inr None \<Rightarrow> Inl TypeError
      | Inr (Some msg) \<Rightarrow>
          if m_type msg = Some ''session.created'' then
            (case m_session msg of
               None \<Rightarrow> Inl TypeError
             | Some sid \<Rightarrow>
                 (let s1 = s\<lparr>sessionIds := (sessionIds s)(label := sid)\<rparr>;
                      s2 = emit_log (SessionCreated label sid) s1
                  in case ws_send ws
                            (SessionUpdate \<lparr>cfg_voice = None, cfg_server_vad = True,
                                            cfg_interrupt_response = None\<rparr>) s2 of
                       Inl err \<Rightarrow> Inl err
                     | Inr s3 \<Rightarrow>
                         (let s4 = emit_log (SessionUpdateSent label) s3;
                              s5 = s4\<lparr>wavWriters := (wavWriters s4)
                                      (Solo label \<mapsto>
                                         createWavWriter (''session'' @ label_name label @ ''.wav''))\<rparr>;
                              s6 = s5\<lparr>sessions := (sessions s5)(label \<mapsto> ws)\<rparr>
                          in Inr (resolve rt ws s6))))
          else if is_audio_payload msg then
            (case audio_b64 msg of
               None \<Rightarrow> Inl TypeError
             | Some b64 \<Rightarrow>
                 (let chunk = from_base64 rt b64 in
                  case writer_write (Solo label) chunk s of
                    Inl err \<Rightarrow> Inl err
                  | Inr s1 \<Rightarrow>
                      Inr (enqueue_forward (other label) b64 chunk
                             (emit_log (AudioChunk label (length chunk)) s1))))
          else Inr (emit_log (OtherEvent label (m_type msg) msg) s))"

subsection \<open>\<^verbatim>\<open>unnamed/part_000\<close> and \<^verbatim>\<open>unnamed/part_001\<close>: solo tracks written live\<close>






subsection \<open>\<^verbatim>\<open>_streamTo\<close> of \<^verbatim>\<open>orchestrator_backup_0507.js\<close> and \<^verbatim>\<open>orchestrator_backup_0506_2.js\<close>\<close>

text \<open>
  \<^verbatim>\<open>
  /** Stream a PCM buffer in 20ms frames at real-time pace */
  async _streamTo(label, buffer) {
    const ws = this.sessions[label];
    if (!ws || ws.readyState !== WebSocket.OPEN) {
      this.emit("error", new Error(`Session ${label} not ready`));
      return;
    }
    const frameSize = 960; // 20ms @48kHz mono
    for (let i = 0; i < buffer.length; i += frameSize) {
      const frame = buffer.slice(i, i + frameSize);
      ws.send(JSON.stringify({ type: "input_audio_buffer.append",
                               audio: frame.toString("base64") }));
      await new Promise(r => setTimeout(r, 20));
    }
  }
  \<close>
  The function is asynchronous: after the test of the socket it performs, in this
  order, the sends and the timer waits that \<open>stream_loop\<close> lists. The model gives the
  state after the synchronous test and that list; \<open>SetTimeout n\<close> is a suspension on a
  timer of \<open>n\<close> milliseconds.
\<close>

datatype stream_action = WsSend nat client_msg | SetTimeout nat

definition frameSize :: nat where "frameSize = 960"

text \<open>\<^verbatim>\<open>buffer.slice(i, j)\<close> for \<open>i \<le> j\<close>: the bytes from index \<open>i\<close> up to, not
  including, index \<open>j\<close>, or up to the end of the buffer if that comes first.\<close>

definition buffer_slice :: "nat \<Rightarrow> nat \<Rightarrow> buffer \<Rightarrow> buffer" where
  "buffer_slice i j buffer = take (j - i) (drop i buffer)"

function stream_loop :: "runtime \<Rightarrow> nat \<Rightarrow> nat \<Rightarrow> buffer \<Rightarrow> stream_action list" where
  "stream_loop rt ws i buffer =
     (if i < length buffer
      then WsSend ws (InputAudioBufferAppend (to_base64 rt (buffer_slice i (i + frameSize) buffer)))
           # SetTimeout 20
           # stream_loop rt ws (i + frameSize) buffer
      else [])"
  by pat_completeness auto
termination
  by (relation "measure (\<lambda>(rt, ws, i, buffer). length buffer - i)") (auto simp: frameSize_def)

declare stream_loop.simps [simp del]

definition streamTo ::
  "runtime \<Rightarrow> label \<Rightarrow> buffer \<Rightarrow> orch \<Rightarrow> orch \<times> stream_action list" where
  "streamTo rt label buffer s =
     (case sessions s label of
        None \<Rightarrow> (emit_error (SessionNotReady label) s, [])
      | Some ws \<Rightarrow>
          if \<not> (ws < length (sockets s) \<and> readyState (sockets s ! ws) = OPEN)
          then (emit_error (SessionNotReady label) s, [])
          else (s, stream_loop rt ws 0 buffer))"

subsection \<open>Audio payload frames and byte counts\<close>




subsection \<open>Well-formed states and the states of the examples\<close>

text \<open>
  \<^verbatim>\<open>this.sessions[label] = ws\<close> is only ever executed in a handler of a socket that
  \<^verbatim>\<open>_createSession(label)\<close> made, so every stored session is a socket of its own
  label.
\<close>

definition wf_sessions :: "orch \<Rightarrow> bool" where
  "wf_sessions s =
     (\<forall>l k. sessions s l = Some k \<longrightarrow> k < length (sockets s) \<and> sock_label (sockets s ! k) = l)"

text \<open>
  Two states have the same shape when they have the same sockets by number and label
  and the same sessions; most steps of the handlers keep the shape.
\<close>

definition same_shape :: "orch \<Rightarrow> orch \<Rightarrow> bool" where
  "same_shape s s' =
     (length (sockets s') = length (sockets s)
      \<and> map sock_label (sockets s') = map sock_label (sockets s)
      \<and> sessions s' = sessions s)"

text \<open>
  For the concrete examples: a runtime that reads each character as one byte (the
  theorems hold for every runtime), the two kinds of message used, and the state of
  \<^verbatim>\<open>server/orchestrator.js\<close> once a conversation runs: both sockets open and
  configured, the seed sent to A.
\<close>

definition demo_runtime :: runtime where
  "demo_runtime =
     \<lparr>from_base64 = map (\<lambda>c. of_nat (of_char c)), to_base64 = map (\<lambda>b. char_of (unat b))\<rparr>"

definition session_created_msg :: "string \<Rightarrow> msg" where
  "session_created_msg sid =
     \<lparr>m_type = Some ''session.created'', m_session = Some (Some sid), m_data = None,
      m_delta = None, m_text = None, m_payload = None\<rparr>"

definition audio_delta_msg :: "string \<Rightarrow> msg" where
  "audio_delta_msg b64 =
     \<lparr>m_type = Some ''response.audio.delta'', m_session = None, m_data = None,
      m_delta = Some b64, m_text = None, m_payload = None\<rparr>"

definition example_active :: orch where
  "example_active =
     \<lparr>sockets =
        [\<lparr>sock_label = A, clientSessionId = ''uuid-a'', readyState = OPEN,
          outbox = [SessionUpdate \<lparr>cfg_voice = None, cfg_server_vad = False,
                                   cfg_interrupt_response = None\<rparr>,
                    InputAudioBufferAppend (to_base64 demo_runtime [0, 0])],
          session_promise = Fulfilled\<rparr>,
         \<lparr>sock_label = B, clientSessionId = ''uuid-b'', readyState = OPEN,
          outbox = [SessionUpdate \<lparr>cfg_voice = None, cfg_server_vad = False,
                                   cfg_interrupt_response = None\<rparr>],
          session_promise = Fulfilled\<rparr>],
      sessions = (\<lambda>label. case label of A \<Rightarrow> Some 0 | B \<Rightarrow> Some 1),
      wavWriters = (\<lambda>key. case key of
                      Solo label \<Rightarrow> Some (createWavWriter (''session'' @ label_name label @ ''.wav''))
                    | Combined \<Rightarrow> None),
      sessionIds = (\<lambda>label. case label of A \<Rightarrow> Some ''sess_A'' | B \<Rightarrow> Some ''sess_B''),
      forwardQueues = (\<lambda>label. []),
      transcripts = (\<lambda>label. []),
      outputDir = [],
      start_calls = [\<lparr>call_sockA = 0, call_sockB = 1, call_outcome = Fulfilled\<rparr>],
      log_stream =
        [Connected A ''uuid-a'', Connected B ''uuid-b'', SessionCreated A (Some ''sess_A''),
         SessionCreated B (Some ''sess_B''), SeedSent A],
      error_stream = [],
      seed_hello_pcm = Some [0, 0]\<rparr>"


section \<open>Properties\<close>

subsection \<open>The singleton\<close>

lemma initOrchestrator_existing:
  "orchestrator m = Some r \<Longrightarrow> initOrchestrator env m = (Inr r, m)"
  by (simp add: initOrchestrator_def)

lemma initOrchestrator_first:
  "orchestrator m = None \<Longrightarrow>
   initOrchestrator env m =
     (if env ''OPENAI_API_KEY'' = None \<or> env ''OPENAI_API_KEY'' = Some []
      then (Inl ApiKeyNotSet, m)
      else (Inr (length (instances m)),
            m\<lparr>instances := instances m @ [ArenaOrchestrator_new (the (env ''OPENAI_API_KEY''))],
              orchestrator := Some (length (instances m))\<rparr>))"
  by (auto simp: initOrchestrator_def falsy_def Let_def split: option.splits)

text \<open>
  C9, as stated, fails in one direction of its "if and only if": the key may be set and
  the first call still throws, namely when it is set to the empty string.
\<close>

theorem initOrchestrator_empty_key_counterexample:
  "\<not> (\<forall>env. (\<exists>e. fst (initOrchestrator env module_init) = Inl e)
              \<longleftrightarrow> env ''OPENAI_API_KEY'' = None)"
proof
  assume h: "\<forall>env. (\<exists>e. fst (initOrchestrator env module_init) = Inl e)
              \<longleftrightarrow> env ''OPENAI_API_KEY'' = None"
  have "fst (initOrchestrator (\<lambda>n. if n = ''OPENAI_API_KEY'' then Some [] else None) module_init)
        = Inl ApiKeyNotSet"
    by (simp add: initOrchestrator_def module_init_def falsy_def)
  with h show False
    by (auto dest!: spec [where x = "\<lambda>n. if n = ''OPENAI_API_KEY'' then Some [] else None"])
qed

text \<open>
  C9 (amended): with no instance yet, \<^verbatim>\<open>initOrchestrator\<close> throws exactly when
  \<^verbatim>\<open>OPENAI_API_KEY\<close> is unset or empty, and then leaves the module as it was; otherwise
  it constructs one instance from the key, stores it and returns it. Once a call has
  returned an instance, every later call returns that same reference and changes
  nothing, whatever the environment holds by then, so no second instance is
  constructed.
\<close>

theorem initOrchestrator_idempotent:
  "(orchestrator m = None \<longrightarrow>
      ((\<exists>e. fst (initOrchestrator env m) = Inl e)
         \<longleftrightarrow> env ''OPENAI_API_KEY'' = None \<or> env ''OPENAI_API_KEY'' = Some [])
    \<and> (\<forall>e. fst (initOrchestrator env m) = Inl e \<longrightarrow> snd (initOrchestrator env m) = m)
    \<and> (\<forall>r. fst (initOrchestrator env m) = Inr r \<longrightarrow>
          r = length (instances m)
        \<and> instances (snd (initOrchestrator env m))
            = instances m @ [ArenaOrchestrator_new (the (env ''OPENAI_API_KEY''))]
        \<and> orchestrator (snd (initOrchestrator env m)) = Some r))
   \<and> (\<forall>r m1. initOrchestrator env m = (Inr r, m1) \<longrightarrow>
        (\<forall>env'. initOrchestrator env' m1 = (Inr r, m1)))"
proof (intro conjI impI allI)
  assume "orchestrator m = None"
  then show "(\<exists>e. fst (initOrchestrator env m) = Inl e)
         \<longleftrightarrow> env ''OPENAI_API_KEY'' = None \<or> env ''OPENAI_API_KEY'' = Some []"
    by (simp add: initOrchestrator_first)
next
  fix e
  assume "orchestrator m = None" "fst (initOrchestrator env m) = Inl e"
  then show "snd (initOrchestrator env m) = m"
    by (auto simp: initOrchestrator_first split: if_splits)
next
  fix r
  assume h: "orchestrator m = None" "fst (initOrchestrator env m) = Inr r"
  then show "r = length (instances m)"
    by (auto simp: initOrchestrator_first split: if_splits)
  from h show "instances (snd (initOrchestrator env m))
            = instances m @ [ArenaOrchestrator_new (the (env ''OPENAI_API_KEY''))]"
    by (auto simp: initOrchestrator_first split: if_splits)
  from h show "orchestrator (snd (initOrchestrator env m)) = Some r"
    by (auto simp: initOrchestrator_first split: if_splits)
next
  fix r m1 env'
  assume h: "initOrchestrator env m = (Inr r, m1)"
  have "orchestrator m1 = Some r"
  proof (cases "orchestrator m")
    case None
    with h show ?thesis
      by (auto simp: initOrchestrator_first split: if_splits)
  next
    case (Some r')
    with h show ?thesis
      by (simp add: initOrchestrator_existing)
  qed
  then show "initOrchestrator env' m1 = (Inr r, m1)"
    by (rule initOrchestrator_existing)
qed

theorem initOrchestrator_idempotent_witness:
  "orchestrator module_init = None
   \<and> initOrchestrator (\<lambda>n. if n = ''OPENAI_API_KEY'' then Some ''sk-test'' else None) module_init
       = (Inr 0, \<lparr>orchestrator = Some 0, instances = [ArenaOrchestrator_new ''sk-test'']\<rparr>)
   \<and> initOrchestrator (\<lambda>n. None)
        \<lparr>orchestrator = Some 0, instances = [ArenaOrchestrator_new ''sk-test'']\<rparr>
       = (Inr 0, \<lparr>orchestrator = Some 0, instances = [ArenaOrchestrator_new ''sk-test'']\<rparr>)"
proof -
  let ?env = "\<lambda>n. if n = ''OPENAI_API_KEY'' then Some ''sk-test'' else None"
  let ?m1 = "\<lparr>orchestrator = Some 0, instances = [ArenaOrchestrator_new ''sk-test'']\<rparr>"
  have first: "initOrchestrator ?env module_init = (Inr 0, ?m1)"
    by (simp add: initOrchestrator_def module_init_def falsy_def Let_def)
  have "\<forall>r m1. initOrchestrator ?env module_init = (Inr r, m1) \<longrightarrow>
        (\<forall>env'. initOrchestrator env' m1 = (Inr r, m1))"
    using initOrchestrator_idempotent [of module_init ?env] by blast
  with first have "initOrchestrator (\<lambda>n. None) ?m1 = (Inr 0, ?m1)"
    by blast
  with first show ?thesis
    by (simp add: module_init_def)
qed


subsection \<open>The recording assembler\<close>


lemma bytesPerMs_eq: "bytesPerMs = 48"
  by (simp add: bytesPerMs_def sampleRate_def bitDepth_def)

lemma Math_round_of_int: "Math_round (of_int n) = n"
  unfolding Math_round_def by linarith


lemma build_step_ahead:
  assumes grid: "on_grid cursor"
    and ahead: "cursor < of_int (ev_t e)"
    and fits: "(of_int (ev_t e) - cursor) * bytesPerMs \<le> of_nat kMaxLength"
    and live: "\<not> ended w"
  shows "\<exists>n. of_nat n / bytesPerMs = of_int (ev_t e) - cursor
           \<and> build_step kMaxLength e (cursor, w)
               = Inr (cursor + (of_int (ev_t e) - cursor) + duration_ms (ev_data e),
                      w\<lparr>written := written w @ [replicate n 0, ev_data e]\<rparr>)"
proof -
  from grid obtain k :: int where k: "cursor * bytesPerMs = of_int k"
    by (auto simp: on_grid_def)
  let ?g = "of_int (ev_t e) - cursor"
  have g: "?g * bytesPerMs = of_int (48 * ev_t e - k)"
    using k by (simp add: bytesPerMs_eq algebra_simps)
  have pos: "0 < 48 * ev_t e - k"
  proof -
    have "0 < ?g * bytesPerMs" using ahead by (simp add: bytesPerMs_eq)
    with g have "(0::rat) < of_int (48 * ev_t e - k)" by simp
    then show ?thesis by (simp only: of_int_0_less_iff)
  qed
  have le: "48 * ev_t e - k \<le> int kMaxLength"
  proof -
    from fits g have "(of_int (48 * ev_t e - k) :: rat) \<le> of_int (int kMaxLength)" by simp
    then show ?thesis by (simp only: of_int_le_iff)
  qed
  let ?n = "nat (48 * ev_t e - k)"
  have r: "Math_round (?g * bytesPerMs) = 48 * ev_t e - k"
    by (simp only: g Math_round_of_int)
  have n: "of_nat ?n / bytesPerMs = ?g"
  proof -
    have "(of_nat ?n :: rat) = of_int (48 * ev_t e - k)" using pos by simp
    with g show ?thesis by (simp add: bytesPerMs_eq)
  qed
  have "build_step kMaxLength e (cursor, w)
               = Inr (cursor + ?g + duration_ms (ev_data e),
                      w\<lparr>written := written w @ [replicate ?n 0, ev_data e]\<rparr>)"
    using ahead pos le live
    by (simp add: build_step_def Let_def r Buffer_alloc_def wav_write_def)
  with n show ?thesis by blast
qed


lemma Math_round_numeral: "Math_round (numeral n) = numeral n"
  using Math_round_of_int [of "numeral n"] by simp


lemma on_grid_end: "on_grid (of_int t + duration_ms chunk)"
proof -
  have "(of_int t + duration_ms chunk) * bytesPerMs = of_int (48 * t + int (length chunk))"
    by (simp add: duration_ms_def bytesPerMs_eq algebra_simps)
  then show ?thesis unfolding on_grid_def by blast
qed

lemma build_step_Inr:
  assumes "build_step kMaxLength e (cursor, w) = Inr (cursor', w')"
  shows "cursor' = of_int (ev_t e) + duration_ms (ev_data e)"
    and "ended w' = ended w"
  using assms
  by (auto simp: build_step_def Let_def wav_write_def split: if_splits sum.splits)

lemma build_loop_Inr:
  assumes "build_loop kMaxLength es (cursor, w) = Inr (cursor', w')"
    and "on_grid cursor"
  shows "on_grid cursor' \<and> ended w' = ended w"
  using assms
proof (induction es arbitrary: cursor w)
  case Nil
  then show ?case by simp
next
  case (Cons e es)
  from Cons.prems(1) obtain c1 w1 where
    step: "build_step kMaxLength e (cursor, w) = Inr (c1, w1)"
    and rest: "build_loop kMaxLength es (c1, w1) = Inr (cursor', w')"
    by (auto split: sum.splits)
  from build_step_Inr [OF step] have "on_grid c1" "ended w1 = ended w"
    by (simp_all add: on_grid_end)
  with Cons.IH [OF rest] show ?case by simp
qed




lemma build_step_behind:
  assumes "\<not> cursor < of_int (ev_t e)" and "\<not> ended w"
  shows "build_step kMaxLength e (cursor, w)
           = Inr (of_int (ev_t e) + duration_ms (ev_data e),
                  w\<lparr>written := written w @ [ev_data e]\<rparr>)"
  using assms by (simp add: build_step_def Let_def wav_write_def)

















lemma sort_key_sorted_parts:
  fixes f :: "'a \<Rightarrow> int"
  shows "sort_key f (sort_key f xs @ sort_key f ys) = sort_key f (xs @ ys)"
proof (rule properties_for_sort_key [symmetric])
  show "mset (sort_key f (sort_key f xs @ sort_key f ys)) = mset (xs @ ys)"
    by simp
  show "sorted (map f (sort_key f (sort_key f xs @ sort_key f ys)))"
    by (rule sorted_sort_key)
  fix k
  have "\<And>zs. filter (\<lambda>x. f k = f x) (sort_key f zs) = filter (\<lambda>x. f k = f x) zs"
    using sort_key_stable [of f "f k"] by (simp add: eq_commute [of "f k"])
  then show "filter (\<lambda>x. f k = f x) (sort_key f (sort_key f xs @ sort_key f ys))
           = filter (\<lambda>x. f k = f x) (xs @ ys)"
    by simp
qed

lemma build_empty:
  "build kMaxLength [] name
     = ([], Inr \<lparr>wav_path = name, wav_sampleRate = 24000, wav_channels = 1,
                 wav_bitDepth = 16, written = [], ended = True\<rparr>)"
  by (simp add: build_def wav_end_def wav_Writer_new_def sampleRate_def channels_def bitDepth_def)

text \<open>
  C5: \<^verbatim>\<open>build\<close> on an empty event sequence raises nothing and yields a finished
  artifact with the fixed header parameters and no audio data; with no events for
  either party all three files of \<^verbatim>\<open>_writeConversationFiles\<close> are such artifacts.
\<close>

theorem finalize_empty:
  "build kMaxLength [] name
     = ([], Inr \<lparr>wav_path = name, wav_sampleRate = 24000, wav_channels = 1,
                 wav_bitDepth = 16, written = [], ended = True\<rparr>)
   \<and> writeConversationFiles kMaxLength (\<lambda>label. [])
     = (\<lambda>label. [],
        Inr [\<lparr>wav_path = ''sessionA_full.wav'', wav_sampleRate = 24000, wav_channels = 1,
              wav_bitDepth = 16, written = [], ended = True\<rparr>,
             \<lparr>wav_path = ''sessionB_full.wav'', wav_sampleRate = 24000, wav_channels = 1,
              wav_bitDepth = 16, written = [], ended = True\<rparr>,
             \<lparr>wav_path = ''conversation.wav'', wav_sampleRate = 24000, wav_channels = 1,
              wav_bitDepth = 16, written = [], ended = True\<rparr>])"
  by (simp add: writeConversationFiles_def build_empty merged_events_def fun_eq_iff)

theorem finalize_empty_witness:
  "snd (build 4294967296 [] ''sessionB_full.wav'')
     = Inr \<lparr>wav_path = ''sessionB_full.wav'', wav_sampleRate = 24000, wav_channels = 1,
            wav_bitDepth = 16, written = [], ended = True\<rparr>
   \<and> (\<exists>files. snd (writeConversationFiles 4294967296 (\<lambda>label. [])) = Inr files
         \<and> map written files = [[], [], []] \<and> map ended files = [True, True, True])"
  using finalize_empty [of 4294967296 "''sessionB_full.wav''"] by simp


lemma build_pair:
  assumes fits: "2400 \<le> kMaxLength"
  shows "build kMaxLength [\<lparr>ev_t = 0, ev_data = a0\<rparr>, \<lparr>ev_t = 50, ev_data = b0\<rparr>] name
     = ([\<lparr>ev_t = 0, ev_data = a0\<rparr>, \<lparr>ev_t = 50, ev_data = b0\<rparr>],
        Inr \<lparr>wav_path = name, wav_sampleRate = 24000, wav_channels = 1, wav_bitDepth = 16,
             written = a0 # (if length a0 < 2400 then [replicate (2400 - length a0) 0] else [])
                         @ [b0],
             ended = True\<rparr>)"
proof -
  let ?ea = "\<lparr>ev_t = 0, ev_data = a0\<rparr>" and ?eb = "\<lparr>ev_t = 50, ev_data = b0\<rparr>"
  let ?w0 = "wav_Writer_new sampleRate channels bitDepth name"
  let ?w1 = "?w0\<lparr>written := written ?w0 @ [a0]\<rparr>"
  have s0: "build_step kMaxLength ?ea (0, ?w0) = Inr (duration_ms a0, ?w1)"
    using build_step_behind [of 0 ?ea ?w0 kMaxLength] by (simp add: wav_Writer_new_def)
  have live: "\<not> ended ?w1" by (simp add: wav_Writer_new_def)
  have grid: "on_grid (duration_ms a0)"
    using on_grid_end [of 0 a0] by simp
  have s1: "build_step kMaxLength ?eb (duration_ms a0, ?w1)
      = Inr (50 + duration_ms b0,
             ?w1\<lparr>written := written ?w1
                @ (if length a0 < 2400 then [replicate (2400 - length a0) 0] else []) @ [b0]\<rparr>)"
  proof (cases "length a0 < 2400")
    case True
    then have ahead: "duration_ms a0 < of_int (ev_t ?eb)"
      by (simp add: duration_ms_def bytesPerMs_eq)
    have "(of_int (ev_t ?eb) - duration_ms a0) * bytesPerMs \<le> 2400"
      by (simp add: duration_ms_def bytesPerMs_eq)
    also have "(2400::rat) \<le> of_nat kMaxLength"
      using fits by (metis of_nat_le_iff of_nat_numeral)
    finally have le: "(of_int (ev_t ?eb) - duration_ms a0) * bytesPerMs \<le> of_nat kMaxLength" .
    from build_step_ahead [OF grid ahead le live] obtain n where
      n: "of_nat n / bytesPerMs = of_int (ev_t ?eb) - duration_ms a0"
      and st: "build_step kMaxLength ?eb (duration_ms a0, ?w1)
        = Inr (duration_ms a0 + (of_int (ev_t ?eb) - duration_ms a0) + duration_ms (ev_data ?eb),
               ?w1\<lparr>written := written ?w1 @ [replicate n 0, ev_data ?eb]\<rparr>)"
      by blast
    from n have "(of_nat n :: rat) = of_nat (2400 - length a0)"
      using True by (simp add: duration_ms_def bytesPerMs_eq field_simps of_nat_diff)
    then have "n = 2400 - length a0"
      by (simp only: of_nat_eq_iff)
    with st True show ?thesis by simp
  next
    case False
    then have "\<not> duration_ms a0 < of_int (ev_t ?eb)"
      by (simp add: duration_ms_def bytesPerMs_eq)
    from build_step_behind [OF this live, of kMaxLength] False show ?thesis
      by simp
  qed
  have "build kMaxLength [?ea, ?eb] name
      = ([?ea, ?eb],
         Inr (wav_end (?w1\<lparr>written := written ?w1
                @ (if length a0 < 2400 then [replicate (2400 - length a0) 0] else []) @ [b0]\<rparr>)))"
    by (simp add: build_def s0 s1)
  then show ?thesis
    by (simp add: wav_end_def wav_Writer_new_def sampleRate_def channels_def bitDepth_def)
qed


lemma build_solo_at_0:
  "build kMaxLength [\<lparr>ev_t = 0, ev_data = a0\<rparr>] name
     = ([\<lparr>ev_t = 0, ev_data = a0\<rparr>],
        Inr \<lparr>wav_path = name, wav_sampleRate = 24000, wav_channels = 1, wav_bitDepth = 16,
             written = [a0], ended = True\<rparr>)"
  by (simp add: build_def build_step_def Let_def wav_write_def wav_end_def wav_Writer_new_def
      sampleRate_def channels_def bitDepth_def)

lemma build_solo_at_50:
  "2400 \<le> kMaxLength \<Longrightarrow>
   build kMaxLength [\<lparr>ev_t = 50, ev_data = b0\<rparr>] name
     = ([\<lparr>ev_t = 50, ev_data = b0\<rparr>],
        Inr \<lparr>wav_path = name, wav_sampleRate = 24000, wav_channels = 1, wav_bitDepth = 16,
             written = [replicate 2400 0, b0], ended = True\<rparr>)"
  by (simp add: build_def build_step_def Let_def bytesPerMs_eq Math_round_numeral
      Buffer_alloc_def wav_write_def wav_end_def wav_Writer_new_def sampleRate_def channels_def
      bitDepth_def)

lemma build_fst: "fst (build kMaxLength events name) = sort_key ev_t events"
  by (simp add: build_def Let_def)

lemma writeConversationFiles_Inr:
  assumes "writeConversationFiles kMaxLength events = (events', Inr files)"
  shows "\<exists>fileA fileB fileM. files = [fileA, fileB, fileM]
           \<and> snd (build kMaxLength (events A) ''sessionA_full.wav'') = Inr fileA
           \<and> snd (build kMaxLength (events B) ''sessionB_full.wav'') = Inr fileB
           \<and> snd (build kMaxLength
                     (merged_events (sort_key ev_t (events A)) (sort_key ev_t (events B)))
                     ''conversation.wav'') = Inr fileM"
proof -
  obtain ea ra where a: "build kMaxLength (events A) ''sessionA_full.wav'' = (ea, ra)"
    by (cases "build kMaxLength (events A) ''sessionA_full.wav''")
  obtain eb rb where b: "build kMaxLength (events B) ''sessionB_full.wav'' = (eb, rb)"
    by (cases "build kMaxLength (events B) ''sessionB_full.wav''")
  from a b build_fst [of kMaxLength "events A" "''sessionA_full.wav''"]
    build_fst [of kMaxLength "events B" "''sessionB_full.wav''"]
  have ea: "ea = sort_key ev_t (events A)" and eb: "eb = sort_key ev_t (events B)"
    by simp_all
  from assms a b show ?thesis
    unfolding writeConversationFiles_def ea eb
    by (auto simp: Let_def split: sum.splits)
qed

text \<open>
  C4: the conversation track is \<^verbatim>\<open>build\<close> run on the two parties' events combined
  into one sequence sorted by offset (a stable sort of A's events followed by B's), that
  is, the same gap-filling walk. For A's events \<open>[(0, a0)]\<close> and B's events
  \<open>[(50, b0)]\<close> the merged sequence is \<open>[(0, a0), (50, b0)]\<close> and the track is \<open>a0\<close>,
  then the zero bytes that fill the time from the end of \<open>a0\<close> to 50 ms (none when
  \<open>a0\<close> plays for 50 ms or longer), then \<open>b0\<close>.
\<close>

theorem merged_conversation_track:
  "sorted (map ev_t (merged_events (sort_key ev_t (events A)) (sort_key ev_t (events B))))
   \<and> merged_events (sort_key ev_t (events A)) (sort_key ev_t (events B))
       = sort_key ev_t (events A @ events B)
   \<and> mset (merged_events (sort_key ev_t (events A)) (sort_key ev_t (events B)))
       = mset (events A) + mset (events B)
   \<and> (writeConversationFiles kMaxLength events = (events', Inr files) \<longrightarrow>
        (\<exists>fileA fileB fileM. files = [fileA, fileB, fileM]
           \<and> build kMaxLength
                (merged_events (sort_key ev_t (events A)) (sort_key ev_t (events B)))
                ''conversation.wav''
              = (merged_events (sort_key ev_t (events A)) (sort_key ev_t (events B)),
                 Inr fileM)))
   \<and> (2400 \<le> kMaxLength \<longrightarrow>
        merged_events [\<lparr>ev_t = 0, ev_data = a0\<rparr>] [\<lparr>ev_t = 50, ev_data = b0\<rparr>]
          = [\<lparr>ev_t = 0, ev_data = a0\<rparr>, \<lparr>ev_t = 50, ev_data = b0\<rparr>]
      \<and> snd (writeConversationFiles kMaxLength
                (\<lambda>label. if label = A then [\<lparr>ev_t = 0, ev_data = a0\<rparr>]
                         else [\<lparr>ev_t = 50, ev_data = b0\<rparr>]))
          = Inr [\<lparr>wav_path = ''sessionA_full.wav'', wav_sampleRate = 24000, wav_channels = 1,
                  wav_bitDepth = 16, written = [a0], ended = True\<rparr>,
                 \<lparr>wav_path = ''sessionB_full.wav'', wav_sampleRate = 24000, wav_channels = 1,
                  wav_bitDepth = 16, written = [replicate 2400 0, b0], ended = True\<rparr>,
                 \<lparr>wav_path = ''conversation.wav'', wav_sampleRate = 24000, wav_channels = 1,
                  wav_bitDepth = 16,
                  written = a0 # (if length a0 < 2400 then [replicate (2400 - length a0) 0]
                                  else []) @ [b0],
                  ended = True\<rparr>])"
proof (intro conjI impI)
  let ?m = "merged_events (sort_key ev_t (events A)) (sort_key ev_t (events B))"
  show "sorted (map ev_t ?m)"
    unfolding merged_events_def by (rule sorted_sort_key)
  show eq: "?m = sort_key ev_t (events A @ events B)"
    unfolding merged_events_def by (rule sort_key_sorted_parts)
  show "mset ?m = mset (events A) + mset (events B)"
    by (simp add: merged_events_def)
  {
    assume "writeConversationFiles kMaxLength events = (events', Inr files)"
    from writeConversationFiles_Inr [OF this] obtain fileA fileB fileM where
      f: "files = [fileA, fileB, fileM]"
      and m: "snd (build kMaxLength ?m ''conversation.wav'') = Inr fileM"
      by blast
    have "fst (build kMaxLength ?m ''conversation.wav'') = ?m"
      by (simp add: build_fst merged_events_def sort_key_id_if_sorted)
    with m have "build kMaxLength ?m ''conversation.wav'' = (?m, Inr fileM)"
      by (simp add: prod_eq_iff)
    with f show "\<exists>fileA fileB fileM. files = [fileA, fileB, fileM]
           \<and> build kMaxLength ?m ''conversation.wav'' = (?m, Inr fileM)"
      by blast
  }
next
  show "merged_events [\<lparr>ev_t = 0, ev_data = a0\<rparr>] [\<lparr>ev_t = 50, ev_data = b0\<rparr>]
          = [\<lparr>ev_t = 0, ev_data = a0\<rparr>, \<lparr>ev_t = 50, ev_data = b0\<rparr>]"
    by (simp add: merged_events_def)
next
  assume fits: "2400 \<le> kMaxLength"
  show "snd (writeConversationFiles kMaxLength
                (\<lambda>label. if label = A then [\<lparr>ev_t = 0, ev_data = a0\<rparr>]
                         else [\<lparr>ev_t = 50, ev_data = b0\<rparr>]))
          = Inr [\<lparr>wav_path = ''sessionA_full.wav'', wav_sampleRate = 24000, wav_channels = 1,
                  wav_bitDepth = 16, written = [a0], ended = True\<rparr>,
                 \<lparr>wav_path = ''sessionB_full.wav'', wav_sampleRate = 24000, wav_channels = 1,
                  wav_bitDepth = 16, written = [replicate 2400 0, b0], ended = True\<rparr>,
                 \<lparr>wav_path = ''conversation.wav'', wav_sampleRate = 24000, wav_channels = 1,
                  wav_bitDepth = 16,
                  written = a0 # (if length a0 < 2400 then [replicate (2400 - length a0) 0]
                                  else []) @ [b0],
                  ended = True\<rparr>]"
    by (simp add: writeConversationFiles_def build_solo_at_0 build_solo_at_50 [OF fits]
        merged_events_def build_pair [OF fits])
qed

theorem merged_conversation_track_witness:
  "(2400::nat) \<le> 4294967296
   \<and> merged_events [\<lparr>ev_t = 0, ev_data = [1, 2]\<rparr>] [\<lparr>ev_t = 50, ev_data = [3, 4]\<rparr>]
       = [\<lparr>ev_t = 0, ev_data = [1, 2]\<rparr>, \<lparr>ev_t = 50, ev_data = [3, 4]\<rparr>]
   \<and> (\<exists>fileA fileB fileM.
         snd (writeConversationFiles 4294967296
                (\<lambda>label. if label = A then [\<lparr>ev_t = 0, ev_data = [1, 2]\<rparr>]
                         else [\<lparr>ev_t = 50, ev_data = [3, 4]\<rparr>]))
           = Inr [fileA, fileB, fileM]
         \<and> written fileM = [[1, 2], replicate 2398 0, [3, 4]])"
  using merged_conversation_track [of _ 4294967296 _ _ "[1, 2]" "[3, 4]"] by simp



subsection \<open>The message handlers and start\<close>


lemma forward_if_open_open:
  assumes "session_open s l" and "sessions s l = Some y"
  shows "forward_if_open l b s
    = s\<lparr>sockets := (sockets s)[y := (sockets s ! y)\<lparr>outbox := outbox (sockets s ! y) @ [InputAudioBufferAppend b]\<rparr>]\<rparr>"
  using assms by (simp add: forward_if_open_def session_open_def transmit_def)

lemma forward_if_open_closed:
  assumes "\<not> session_open s l"
  shows "forward_if_open l b s = s"
  using assms by (auto simp: forward_if_open_def session_open_def transmit_def split: option.splits)

lemma audio_not_created: "is_audio_payload m \<Longrightarrow> m_type m \<noteq> Some ''session.created''"
  by (auto simp: is_audio_payload_def)

lemma on_message_audio:
  assumes "is_audio_payload m" and "audio_b64 m = Some b"
    and "wavWriters s (Solo (sock_label (sockets s ! ws))) = Some w" and "\<not> ended w"
  shows "on_message rt ws (JsonValue m) s
    = Inr (emit_log (AudioChunk (sock_label (sockets s ! ws)) (length (from_base64 rt b)))
            (forward_if_open (other (sock_label (sockets s ! ws))) b
               (s\<lparr>wavWriters := (wavWriters s)
                    (Solo (sock_label (sockets s ! ws)) \<mapsto>
                       w\<lparr>written := written w @ [from_base64 rt b]\<rparr>)\<rparr>)))"
  using assms
  by (simp add: on_message_def JSON_parse_def audio_not_created Let_def writer_write_def
      wav_write_def)


lemma nth_outbox_update:
  "sock_label (xs[i := (xs ! i)\<lparr>outbox := ob\<rparr>] ! j) = sock_label (xs ! j)"
  "readyState (xs[i := (xs ! i)\<lparr>outbox := ob\<rparr>] ! j) = readyState (xs ! j)"
proof -
  show "sock_label (xs[i := (xs ! i)\<lparr>outbox := ob\<rparr>] ! j) = sock_label (xs ! j)"
  proof (cases "i < length xs")
    case True
    then show ?thesis by (cases "i = j") simp_all
  next
    case False
    then have "xs[i := (xs ! i)\<lparr>outbox := ob\<rparr>] = xs"
      by (simp add: list_update_beyond not_less)
    then show ?thesis by simp
  qed
  show "readyState (xs[i := (xs ! i)\<lparr>outbox := ob\<rparr>] ! j) = readyState (xs ! j)"
  proof (cases "i < length xs")
    case True
    then show ?thesis by (cases "i = j") simp_all
  next
    case False
    then have "xs[i := (xs ! i)\<lparr>outbox := ob\<rparr>] = xs"
      by (simp add: list_update_beyond not_less)
    then show ?thesis by simp
  qed
qed

lemma run_audio:
  assumes "\<forall>m \<in> set msgs. is_audio_payload m \<and> audio_b64 m \<noteq> None"
    and "ws < length (sockets s)"
    and "wavWriters s (Solo (sock_label (sockets s ! ws))) = Some w" and "\<not> ended w"
  shows "\<exists>s'. run_messages (on_message rt) (map (\<lambda>m. (ws, JsonValue m)) msgs) s = Inr s'
      \<and> sessions s' = sessions s
      \<and> wavWriters s' = (wavWriters s)
            (Solo (sock_label (sockets s ! ws)) \<mapsto>
               w\<lparr>written := written w @ map (\<lambda>m. from_base64 rt (the (audio_b64 m))) msgs\<rparr>)
      \<and> sockets s' =
          (case sessions s (other (sock_label (sockets s ! ws))) of
             None \<Rightarrow> sockets s
           | Some y \<Rightarrow>
               if session_open s (other (sock_label (sockets s ! ws)))
               then (sockets s)[y := (sockets s ! y)
                      \<lparr>outbox := outbox (sockets s ! y)
                          @ map (\<lambda>m. InputAudioBufferAppend (the (audio_b64 m))) msgs\<rparr>]
               else sockets s)"
  using assms
proof (induction msgs arbitrary: s w)
  case Nil
  then show ?case
    by (auto simp: fun_upd_idem split: option.splits)
next
  case (Cons m msgs)
  let ?X = "sock_label (sockets s ! ws)"
  from Cons.prems(1) obtain b where au: "is_audio_payload m" and b: "audio_b64 m = Some b"
    by auto
  let ?w1 = "w\<lparr>written := written w @ [from_base64 rt b]\<rparr>"
  let ?s0 = "s\<lparr>wavWriters := (wavWriters s)(Solo ?X \<mapsto> ?w1)\<rparr>"
  let ?s1 = "emit_log (AudioChunk ?X (length (from_base64 rt b))) (forward_if_open (other ?X) b ?s0)"
  have step: "on_message rt ws (JsonValue m) s = Inr ?s1"
    by (rule on_message_audio [OF au b Cons.prems(3,4)])
  have open0: "session_open ?s0 (other ?X) = session_open s (other ?X)"
    by (simp add: session_open_def split: option.splits)
  have socks1: "sockets ?s1 =
          (case sessions s (other ?X) of
             None \<Rightarrow> sockets s
           | Some y \<Rightarrow>
               if session_open s (other ?X)
               then (sockets s)[y := (sockets s ! y)
                      \<lparr>outbox := outbox (sockets s ! y) @ [InputAudioBufferAppend b]\<rparr>]
               else sockets s)"
  proof (cases "session_open s (other ?X)")
    case True
    then obtain y where y: "sessions s (other ?X) = Some y"
      by (auto simp: session_open_def split: option.splits)
    from True open0 have "session_open ?s0 (other ?X)" by simp
    from forward_if_open_open [OF this, of y b] y True show ?thesis
      by (simp add: emit_log_def)
  next
    case False
    with open0 have "\<not> session_open ?s0 (other ?X)" by simp
    from forward_if_open_closed [OF this, of b] False show ?thesis
      by (simp add: emit_log_def split: option.splits)
  qed
  have sess1: "sessions ?s1 = sessions s"
    by (cases "session_open ?s0 (other ?X)")
       (auto simp: emit_log_def forward_if_open_def transmit_def split: option.splits)
  have wr1: "wavWriters ?s1 = (wavWriters s)(Solo ?X \<mapsto> ?w1)"
    by (auto simp: emit_log_def forward_if_open_def transmit_def split: option.splits)
  have len1: "length (sockets ?s1) = length (sockets s)"
    unfolding socks1 by (simp split: option.splits)
  have lab1: "sock_label (sockets ?s1 ! ws) = ?X"
    unfolding socks1
    by (simp add: nth_outbox_update split: option.splits)
  have open1: "session_open ?s1 (other ?X) = session_open s (other ?X)"
    unfolding session_open_def sess1 len1 socks1
    by (simp add: nth_outbox_update split: option.splits)
  have p1: "\<forall>m \<in> set msgs. is_audio_payload m \<and> audio_b64 m \<noteq> None"
    using Cons.prems(1) by simp
  have p2: "ws < length (sockets ?s1)" using len1 Cons.prems(2) by simp
  have p3: "wavWriters ?s1 (Solo (sock_label (sockets ?s1 ! ws))) = Some ?w1"
    unfolding lab1 wr1 by simp
  have p4: "\<not> ended ?w1" using Cons.prems(4) by simp
  from Cons.IH [OF p1 p2 p3 p4] obtain s' where
    run: "run_messages (on_message rt) (map (\<lambda>m. (ws, JsonValue m)) msgs) ?s1 = Inr s'"
    and sess: "sessions s' = sessions ?s1"
    and wr: "wavWriters s' = (wavWriters ?s1)
            (Solo (sock_label (sockets ?s1 ! ws)) \<mapsto>
               ?w1\<lparr>written := written ?w1 @ map (\<lambda>m. from_base64 rt (the (audio_b64 m))) msgs\<rparr>)"
    and socks: "sockets s' =
          (case sessions ?s1 (other (sock_label (sockets ?s1 ! ws))) of
             None \<Rightarrow> sockets ?s1
           | Some y \<Rightarrow>
               if session_open ?s1 (other (sock_label (sockets ?s1 ! ws)))
               then (sockets ?s1)[y := (sockets ?s1 ! y)
                      \<lparr>outbox := outbox (sockets ?s1 ! y)
                          @ map (\<lambda>m. InputAudioBufferAppend (the (audio_b64 m))) msgs\<rparr>]
               else sockets ?s1)"
    by blast
  have r: "run_messages (on_message rt) (map (\<lambda>m. (ws, JsonValue m)) (m # msgs)) s = Inr s'"
    using step run by simp
  have c1: "sessions s' = sessions s" using sess sess1 by simp
  have c2: "wavWriters s' = (wavWriters s)
            (Solo ?X \<mapsto>
               w\<lparr>written := written w @ map (\<lambda>m. from_base64 rt (the (audio_b64 m))) (m # msgs)\<rparr>)"
    unfolding wr lab1 wr1 using b by simp
  have c3: "sockets s' =
          (case sessions s (other ?X) of
             None \<Rightarrow> sockets s
           | Some y \<Rightarrow>
               if session_open s (other ?X)
               then (sockets s)[y := (sockets s ! y)
                      \<lparr>outbox := outbox (sockets s ! y)
                          @ map (\<lambda>m. InputAudioBufferAppend (the (audio_b64 m))) (m # msgs)\<rparr>]
               else sockets s)"
    unfolding socks lab1 sess1 open1 unfolding socks1 using b
    by (auto simp: session_open_def split: option.splits)
  from r c1 c2 c3 show ?case by blast
qed


lemmas run_defs =
  on_message_def JSON_parse_def Let_def writer_write_def wav_write_def emit_log_def
  emit_error_def forward_if_open_def ws_send_def transmit_def resolve_def set_promise_def settle_starts_def
  settle_call_def Promise_all_def start_resume_def sendAudio_def set_outcome_def
  createWavWriter_def wav_Writer_new_def label_name_def other_def is_audio_payload_def
  audio_b64_def start_def createSession_def on_open_def orch_new_def
  session_created_msg_def audio_delta_msg_def

text \<open>
  C1, as stated, fails: a payload that arrives on A's socket while B has no open session
  (here B's socket is still connecting) is written to A's recorder and sent to nobody;
  nothing is queued for later either.
\<close>

theorem audio_not_forwarded_counterexample:
  "map_sum id (\<lambda>s'. (map_option written (wavWriters s' (Solo A)),
                      map sock_label (sockets s'), map readyState (sockets s'),
                      map outbox (sockets s'), forwardQueues s' B))
     (run_messages (on_message demo_runtime)
        [(0, JsonValue (session_created_msg ''sess_A'')),
         (0, JsonValue (audio_delta_msg ''QUJD''))]
        (on_open 0 (start ''uuid-a'' ''uuid-b'' (orch_new None))))
   = Inr (Some [from_base64 demo_runtime ''QUJD''],
          [A, B], [OPEN, CONNECTING],
          [[SessionUpdate \<lparr>cfg_voice = None, cfg_server_vad = False,
                           cfg_interrupt_response = None\<rparr>], []],
          [])"
  by (simp add: run_defs)


lemma example_active_reached:
  "map_sum id (\<lambda>s. (sockets s, map (sessions s) [A, B],
                     map (wavWriters s) [Solo A, Solo B, Combined],
                     map (sessionIds s) [A, B], start_calls s, log_stream s, error_stream s,
                     seed_hello_pcm s))
     (run_messages (on_message demo_runtime)
        [(0, JsonValue (session_created_msg ''sess_A'')),
         (1, JsonValue (session_created_msg ''sess_B''))]
        (on_open 1 (on_open 0 (start ''uuid-a'' ''uuid-b'' (orch_new (Some [0, 0]))))))
   = Inr (sockets example_active, map (sessions example_active) [A, B],
          map (wavWriters example_active) [Solo A, Solo B, Combined],
          map (sessionIds example_active) [A, B], start_calls example_active,
          log_stream example_active, error_stream example_active,
          seed_hello_pcm example_active)"
  by (simp add: run_defs example_active_def)


text \<open>
  C1 (amended): let audio payload messages \<open>msgs\<close> arrive in this order on a socket
  \<open>ws\<close> of party \<open>X\<close> whose recorder exists and has not been ended. Then the handler
  raises nothing, the decoded bytes of every payload are appended to \<open>X\<close>'s recorder once
  each in the order of receipt, and, when the other party's session is open, its socket
  is sent every payload once each in the order of receipt; when it is not open nothing
  is sent on any socket. No socket of party \<open>X\<close> is sent anything. The state is taken
  to be well-formed (every stored session is a socket of its own label), which the last
  subsection shows to hold from the constructor on.
\<close>

theorem audio_recorded_and_forwarded:
  assumes msgs: "\<forall>m \<in> set msgs. is_audio_payload m \<and> audio_b64 m \<noteq> None"
    and ws: "ws < length (sockets s)" and X: "sock_label (sockets s ! ws) = X"
    and writer: "wavWriters s (Solo X) = Some w" and live: "\<not> ended w"
    and wf: "wf_sessions s"
  shows "\<exists>s' w'. run_messages (on_message rt) (map (\<lambda>m. (ws, JsonValue m)) msgs) s = Inr s'
      \<and> wavWriters s' (Solo X) = Some w'
      \<and> written w' = written w @ map (\<lambda>m. from_base64 rt (the (audio_b64 m))) msgs
      \<and> (session_open s (other X) \<longrightarrow>
            (\<exists>y. sessions s (other X) = Some y \<and> sock_label (sockets s ! y) = other X
               \<and> outbox (sockets s' ! y)
                   = outbox (sockets s ! y)
                     @ map (\<lambda>m. InputAudioBufferAppend (the (audio_b64 m))) msgs))
      \<and> (\<not> session_open s (other X) \<longrightarrow> sockets s' = sockets s)
      \<and> (\<forall>k < length (sockets s). sock_label (sockets s ! k) = X \<longrightarrow>
            sockets s' ! k = sockets s ! k)"
proof -
  from writer X have writer': "wavWriters s (Solo (sock_label (sockets s ! ws))) = Some w"
    by simp
  from run_audio [OF msgs ws writer' live, of rt] obtain s' where
    run: "run_messages (on_message rt) (map (\<lambda>m. (ws, JsonValue m)) msgs) s = Inr s'"
    and wr: "wavWriters s' = (wavWriters s)
            (Solo X \<mapsto> w\<lparr>written := written w @ map (\<lambda>m. from_base64 rt (the (audio_b64 m))) msgs\<rparr>)"
    and socks: "sockets s' =
          (case sessions s (other X) of
             None \<Rightarrow> sockets s
           | Some y \<Rightarrow>
               if session_open s (other X)
               then (sockets s)[y := (sockets s ! y)
                      \<lparr>outbox := outbox (sockets s ! y)
                          @ map (\<lambda>m. InputAudioBufferAppend (the (audio_b64 m))) msgs\<rparr>]
               else sockets s)"
    unfolding X by blast
  let ?w' = "w\<lparr>written := written w @ map (\<lambda>m. from_base64 rt (the (audio_b64 m))) msgs\<rparr>"
  have a: "wavWriters s' (Solo X) = Some ?w'" by (simp add: wr)
  have b: "written ?w' = written w @ map (\<lambda>m. from_base64 rt (the (audio_b64 m))) msgs"
    by simp
  have c: "session_open s (other X) \<longrightarrow>
            (\<exists>y. sessions s (other X) = Some y \<and> sock_label (sockets s ! y) = other X
               \<and> outbox (sockets s' ! y)
                   = outbox (sockets s ! y)
                     @ map (\<lambda>m. InputAudioBufferAppend (the (audio_b64 m))) msgs)"
  proof
    assume op: "session_open s (other X)"
    then obtain y where y: "sessions s (other X) = Some y" and len: "y < length (sockets s)"
      by (auto simp: session_open_def split: option.splits)
    from wf y have "sock_label (sockets s ! y) = other X"
      by (simp add: wf_sessions_def)
    moreover from socks y op len have "outbox (sockets s' ! y)
                   = outbox (sockets s ! y)
                     @ map (\<lambda>m. InputAudioBufferAppend (the (audio_b64 m))) msgs"
      by simp
    ultimately show "\<exists>y. sessions s (other X) = Some y \<and> sock_label (sockets s ! y) = other X
               \<and> outbox (sockets s' ! y)
                   = outbox (sockets s ! y)
                     @ map (\<lambda>m. InputAudioBufferAppend (the (audio_b64 m))) msgs"
      using y by blast
  qed
  have d: "\<not> session_open s (other X) \<longrightarrow> sockets s' = sockets s"
    using socks by (simp split: option.splits)
  have e: "\<forall>k < length (sockets s). sock_label (sockets s ! k) = X \<longrightarrow>
            sockets s' ! k = sockets s ! k"
  proof (intro allI impI)
    fix k
    assume k: "k < length (sockets s)" and lab: "sock_label (sockets s ! k) = X"
    show "sockets s' ! k = sockets s ! k"
    proof (cases "sessions s (other X)")
      case None
      with socks show ?thesis by simp
    next
      case (Some y)
      with wf have "sock_label (sockets s ! y) = other X"
        by (simp add: wf_sessions_def)
      with lab have "y \<noteq> k"
        by (auto simp: other_def split: if_splits)
      with socks Some show ?thesis by simp
    qed
  qed
  from run a b c d e show ?thesis by blast
qed


lemma wf_example_active: "wf_sessions example_active"
  by (auto simp: wf_sessions_def example_active_def split: label.splits)

theorem audio_recorded_and_forwarded_witness:
  "\<exists>s' w'. run_messages (on_message demo_runtime)
              (map (\<lambda>m. (0, JsonValue m)) [audio_delta_msg ''QUJD'', audio_delta_msg ''REVG''])
              example_active = Inr s'
      \<and> wavWriters s' (Solo A) = Some w'
      \<and> written w' = [from_base64 demo_runtime ''QUJD'', from_base64 demo_runtime ''REVG'']
      \<and> outbox (sockets s' ! 1)
          = [SessionUpdate \<lparr>cfg_voice = None, cfg_server_vad = False,
                            cfg_interrupt_response = None\<rparr>,
             InputAudioBufferAppend ''QUJD'', InputAudioBufferAppend ''REVG'']
      \<and> sockets s' ! 0 = sockets example_active ! 0"
proof -
  let ?msgs = "[audio_delta_msg ''QUJD'', audio_delta_msg ''REVG'']"
  have h1: "\<forall>m \<in> set ?msgs. is_audio_payload m \<and> audio_b64 m \<noteq> None"
    by (simp add: audio_delta_msg_def is_audio_payload_def audio_b64_def)
  have h2: "0 < length (sockets example_active)"
    and h3: "sock_label (sockets example_active ! 0) = A"
    and h4: "wavWriters example_active (Solo A) = Some (createWavWriter ''sessionA.wav'')"
    and h5: "\<not> ended (createWavWriter ''sessionA.wav'')"
    by (simp_all add: example_active_def createWavWriter_def wav_Writer_new_def label_name_def)
  have op: "session_open example_active (other A)"
    by (simp add: session_open_def example_active_def other_def)
  from audio_recorded_and_forwarded [OF h1 h2 h3 h4 h5 wf_example_active, of demo_runtime]
  obtain s' w' where
    run: "run_messages (on_message demo_runtime) (map (\<lambda>m. (0, JsonValue m)) ?msgs)
            example_active = Inr s'"
    and a: "wavWriters s' (Solo A) = Some w'"
    and b: "written w' = written (createWavWriter ''sessionA.wav'')
              @ map (\<lambda>m. from_base64 demo_runtime (the (audio_b64 m))) ?msgs"
    and c: "session_open example_active (other A) \<longrightarrow>
            (\<exists>y. sessions example_active (other A) = Some y
               \<and> sock_label (sockets example_active ! y) = other A
               \<and> outbox (sockets s' ! y)
                   = outbox (sockets example_active ! y)
                     @ map (\<lambda>m. InputAudioBufferAppend (the (audio_b64 m))) ?msgs)"
    and e: "\<forall>k < length (sockets example_active).
              sock_label (sockets example_active ! k) = A \<longrightarrow>
              sockets s' ! k = sockets example_active ! k"
    by blast
  from b have b': "written w' = [from_base64 demo_runtime ''QUJD'', from_base64 demo_runtime ''REVG'']"
    by (simp add: createWavWriter_def wav_Writer_new_def audio_delta_msg_def audio_b64_def)
  from c op have c': "outbox (sockets s' ! 1)
          = [SessionUpdate \<lparr>cfg_voice = None, cfg_server_vad = False,
                            cfg_interrupt_response = None\<rparr>,
             InputAudioBufferAppend ''QUJD'', InputAudioBufferAppend ''REVG'']"
    by (auto simp: example_active_def other_def audio_delta_msg_def audio_b64_def)
  from e h2 h3 have e': "sockets s' ! 0 = sockets example_active ! 0"
    by blast
  from run a b' c' e' show ?thesis by blast
qed

text \<open>
  C7: a frame that \<^verbatim>\<open>JSON.parse\<close> rejects makes the handler (of
  \<^verbatim>\<open>server/orchestrator.js\<close> and of \<^verbatim>\<open>unnamed/part_002\<close>) emit that error and
  return normally; the state afterwards differs from the state before in the error
  stream only, so the sockets, the sessions, the session identifiers, the writers and
  the forwarding queues are unchanged.
\<close>

theorem malformed_message_ignored:
  "JSON_parse raw = Inl err \<longrightarrow>
     on_message rt ws raw s = Inr (s\<lparr>error_stream := error_stream s @ [err]\<rparr>)
   \<and> on_message_part002 rt ws raw s = Inr (s\<lparr>error_stream := error_stream s @ [err]\<rparr>)
   \<and> sockets (s\<lparr>error_stream := error_stream s @ [err]\<rparr>) = sockets s
   \<and> sessions (s\<lparr>error_stream := error_stream s @ [err]\<rparr>) = sessions s
   \<and> sessionIds (s\<lparr>error_stream := error_stream s @ [err]\<rparr>) = sessionIds s
   \<and> wavWriters (s\<lparr>error_stream := error_stream s @ [err]\<rparr>) = wavWriters s
   \<and> forwardQueues (s\<lparr>error_stream := error_stream s @ [err]\<rparr>) = forwardQueues s"
  by (simp add: on_message_def on_message_part002_def emit_error_def)

theorem malformed_message_ignored_witness:
  "JSON_parse Malformed = Inl SyntaxError
   \<and> on_message demo_runtime 0 Malformed example_active
       = Inr (example_active\<lparr>error_stream := [SyntaxError]\<rparr>)
   \<and> on_message_part002 demo_runtime 0 Malformed example_active
       = Inr (example_active\<lparr>error_stream := [SyntaxError]\<rparr>)"
proof -
  have p: "JSON_parse Malformed = Inl SyntaxError"
    by (simp add: JSON_parse_def)
  have e: "error_stream example_active = []"
    by (simp add: example_active_def)
  from malformed_message_ignored [of Malformed SyntaxError demo_runtime 0 example_active] p e
  show ?thesis by simp
qed


lemma sendAudio_keeps:
  "sessions (sendAudio rt l buf s) = sessions s"
  "sessionIds (sendAudio rt l buf s) = sessionIds s"
  "wavWriters (sendAudio rt l buf s) = wavWriters s"
  by (auto simp: sendAudio_def transmit_def emit_error_def emit_log_def split: option.splits)

lemma settle_call_keeps:
  "sessions (settle_call rt i s) = sessions s"
  "sessionIds (settle_call rt i s) = sessionIds s"
  "wavWriters (settle_call rt i s) = wavWriters s"
  by (auto simp: settle_call_def Let_def start_resume_def set_outcome_def emit_error_def
      sendAudio_keeps split: promise_state.splits option.splits)

lemma fold_settle_keeps:
  "sessions (fold (settle_call rt) is s) = sessions s"
  "sessionIds (fold (settle_call rt) is s) = sessionIds s"
  "wavWriters (fold (settle_call rt) is s) = wavWriters s"
  by (induction "is" arbitrary: s) (simp_all add: settle_call_keeps)

lemma resolve_keeps:
  "sessions (resolve rt ws s) = sessions s"
  "sessionIds (resolve rt ws s) = sessionIds s"
  "wavWriters (resolve rt ws s) = wavWriters s"
  by (simp_all add: resolve_def settle_starts_def fold_settle_keeps set_promise_def)

text \<open>
  C6 (amended): \<^verbatim>\<open>start()\<close> has no test for a running conversation and no
  \<^verbatim>\<open>AlreadyActive\<close> error. Called in any state it emits no error, creates two new
  connecting sockets and awaits them, and leaves the sessions, writers and session
  identifiers as they are for the moment. When an open socket then receives
  \<^verbatim>\<open>session.created\<close>, the handler stores that socket as its party's session, the
  received identifier as its session identifier and a fresh writer as its recorder,
  whatever was stored before.
\<close>

theorem start_has_no_active_check:
  "sessions (start uuidA uuidB s) = sessions s
   \<and> wavWriters (start uuidA uuidB s) = wavWriters s
   \<and> sessionIds (start uuidA uuidB s) = sessionIds s
   \<and> error_stream (start uuidA uuidB s) = error_stream s
   \<and> sockets (start uuidA uuidB s)
       = sockets s @
         [\<lparr>sock_label = A, clientSessionId = uuidA, readyState = CONNECTING, outbox = [],
           session_promise = Pending\<rparr>,
          \<lparr>sock_label = B, clientSessionId = uuidB, readyState = CONNECTING, outbox = [],
           session_promise = Pending\<rparr>]
   \<and> start_calls (start uuidA uuidB s)
       = start_calls s @
         [\<lparr>call_sockA = length (sockets s), call_sockB = Suc (length (sockets s)),
           call_outcome = Pending\<rparr>]
   \<and> (ws < length (sockets s2) \<and> readyState (sockets s2 ! ws) = OPEN
        \<and> m_type msg = Some ''session.created'' \<and> m_session msg = Some sid
      \<longrightarrow> (\<exists>s3. on_message rt ws (JsonValue msg) s2 = Inr s3
             \<and> sessions s3 (sock_label (sockets s2 ! ws)) = Some ws
             \<and> sessionIds s3 (sock_label (sockets s2 ! ws)) = sid
             \<and> wavWriters s3 (Solo (sock_label (sockets s2 ! ws)))
                 = Some (createWavWriter
                           (''session'' @ label_name (sock_label (sockets s2 ! ws)) @ ''.wav''))))"
  by (simp add: start_def createSession_def Let_def on_message_def JSON_parse_def ws_send_def transmit_def
      emit_log_def resolve_keeps)


text \<open>
  C6, as stated, fails: with both sessions configured and one chunk recorded for A, a
  second \<^verbatim>\<open>start()\<close> emits no error and is pending, not rejected; it has made two more
  sockets, and once the new socket of A is open and receives \<^verbatim>\<open>session.created\<close>,
  A's session, session identifier and recorder are the new ones.
\<close>

theorem start_while_active_counterexample:
  "map_sum id
     (\<lambda>s. (error_stream s, error_stream (start ''uuid-c'' ''uuid-d'' s),
           map call_outcome (start_calls (start ''uuid-c'' ''uuid-d'' s)),
           length (sockets s), length (sockets (start ''uuid-c'' ''uuid-d'' s)),
           map_sum id
             (\<lambda>s'. ((sessions s A, sessions s' A), (sessionIds s A, sessionIds s' A),
                    (map_option written (wavWriters s (Solo A)),
                     map_option written (wavWriters s' (Solo A))),
                    error_stream s'))
             (on_message demo_runtime 2 (JsonValue (session_created_msg ''sess_A2''))
                (on_open 2 (start ''uuid-c'' ''uuid-d'' s)))))
     (run_messages (on_message demo_runtime)
        [(0, JsonValue (session_created_msg ''sess_A'')),
         (1, JsonValue (session_created_msg ''sess_B'')),
         (0, JsonValue (audio_delta_msg ''QUJD''))]
        (on_open 1 (on_open 0 (start ''uuid-a'' ''uuid-b'' (orch_new (Some [0, 0]))))))
   = Inr ([], [], [Fulfilled, Pending], 2, 4,
          Inr ((Some 0, Some 2), (Some ''sess_A'', Some ''sess_A2''),
               (Some [from_base64 demo_runtime ''QUJD''], Some []), []))"
  by (simp add: run_defs)

theorem start_has_no_active_check_witness:
  "sessions (start ''uuid-c'' ''uuid-d'' example_active) A = Some 0
   \<and> sessionIds (start ''uuid-c'' ''uuid-d'' example_active) A = Some ''sess_A''
   \<and> error_stream (start ''uuid-c'' ''uuid-d'' example_active) = []
   \<and> map call_outcome (start_calls (start ''uuid-c'' ''uuid-d'' example_active))
       = [Fulfilled, Pending]
   \<and> (\<exists>s3. on_message demo_runtime 2 (JsonValue (session_created_msg ''sess_A2''))
              (on_open 2 (start ''uuid-c'' ''uuid-d'' example_active)) = Inr s3
          \<and> sessions s3 A = Some 2 \<and> sessionIds s3 A = Some ''sess_A2''
          \<and> wavWriters s3 (Solo A) = Some (createWavWriter ''sessionA.wav''))"
proof -
  let ?s1 = "start ''uuid-c'' ''uuid-d'' example_active"
  let ?s2 = "on_open 2 ?s1"
  note inst = start_has_no_active_check [of "''uuid-c''" "''uuid-d''" example_active 2 ?s2
      "session_created_msg ''sess_A2''" "Some ''sess_A2''" demo_runtime]
  have h: "2 < length (sockets ?s2) \<and> readyState (sockets ?s2 ! 2) = OPEN
        \<and> m_type (session_created_msg ''sess_A2'') = Some ''session.created''
        \<and> m_session (session_created_msg ''sess_A2'') = Some (Some ''sess_A2'')"
    and lab: "sock_label (sockets ?s2 ! 2) = A"
    by (simp_all add: on_open_def emit_log_def start_def createSession_def Let_def
        example_active_def session_created_msg_def)
  from inst h lab have c: "\<exists>s3. on_message demo_runtime 2 (JsonValue (session_created_msg ''sess_A2''))
              ?s2 = Inr s3
          \<and> sessions s3 A = Some 2 \<and> sessionIds s3 A = Some ''sess_A2''
          \<and> wavWriters s3 (Solo A) = Some (createWavWriter ''sessionA.wav'')"
    by (simp add: label_name_def)
  from inst have a: "sessions ?s1 = sessions example_active"
    "sessionIds ?s1 = sessionIds example_active"
    "error_stream ?s1 = error_stream example_active"
    "start_calls ?s1 = start_calls example_active @
         [\<lparr>call_sockA = length (sockets example_active),
           call_sockB = Suc (length (sockets example_active)), call_outcome = Pending\<rparr>]"
    by blast+
  have "sessions ?s1 A = Some 0" "sessionIds ?s1 A = Some ''sess_A''" "error_stream ?s1 = []"
    "map call_outcome (start_calls ?s1) = [Fulfilled, Pending]"
    unfolding a by (simp_all add: example_active_def)
  with c show ?thesis by blast
qed



subsection \<open>Streaming a buffer in frames\<close>


lemma stream_loop_frames:
  "\<exists>frames. stream_loop rt ws i buffer
       = concat (map (\<lambda>f. [WsSend ws (InputAudioBufferAppend (to_base64 rt f)), SetTimeout 20])
                   frames)
     \<and> concat frames = drop i buffer
     \<and> (\<forall>f \<in> set frames. f \<noteq> [])
     \<and> (\<forall>f \<in> set (butlast frames). length f = frameSize)
     \<and> (frames \<noteq> [] \<longrightarrow> length (last frames) \<le> frameSize)"
proof (induction rt ws i buffer rule: stream_loop.induct)
  case (1 rt ws i buffer)
  show ?case
  proof (cases "i < length buffer")
    case False
    then have "stream_loop rt ws i buffer = []"
      by (subst stream_loop.simps) simp
    with False show ?thesis
      by (intro exI [of _ "[]"]) simp
  next
    case True
    let ?f = "buffer_slice i (i + frameSize) buffer"
    let ?act = "\<lambda>f. [WsSend ws (InputAudioBufferAppend (to_base64 rt f)), SetTimeout 20]"
    from "1.IH" [OF True] obtain frames where
      loop: "stream_loop rt ws (i + frameSize) buffer = concat (map ?act frames)"
      and cat: "concat frames = drop (i + frameSize) buffer"
      and ne: "\<forall>f \<in> set frames. f \<noteq> []"
      and full: "\<forall>f \<in> set (butlast frames). length f = frameSize"
      and lst: "frames \<noteq> [] \<longrightarrow> length (last frames) \<le> frameSize"
      by blast
    have f: "?f = take frameSize (drop i buffer)"
      by (simp add: buffer_slice_def)
    have unfold: "stream_loop rt ws i buffer = ?act ?f @ stream_loop rt ws (i + frameSize) buffer"
      using True by (subst stream_loop.simps) simp
    have a: "stream_loop rt ws i buffer = concat (map ?act (?f # frames))"
      by (subst unfold) (simp add: loop)
    have dd: "drop (i + frameSize) buffer = drop frameSize (drop i buffer)"
      by (simp add: add.commute)
    have b: "concat (?f # frames) = drop i buffer"
      unfolding concat.simps cat f dd by (rule append_take_drop_id)
    have fne: "?f \<noteq> []"
      using True unfolding f by (simp add: frameSize_def)
    have c: "\<forall>g \<in> set (?f # frames). g \<noteq> []"
      using ne fne by simp
    have d: "\<forall>g \<in> set (butlast (?f # frames)). length g = frameSize"
    proof (cases "frames = []")
      case True
      then show ?thesis by simp
    next
      case False
      then obtain g gs where "frames = g # gs" by (cases frames) auto
      with ne have "concat frames \<noteq> []" by simp
      with cat have "i + frameSize < length buffer" by simp
      then have "length ?f = frameSize" by (simp add: f)
      with full False show ?thesis by simp
    qed
    have e: "?f # frames \<noteq> [] \<longrightarrow> length (last (?f # frames)) \<le> frameSize"
      using lst by (simp add: f)
    from a b c d e show ?thesis by blast
  qed
qed


text \<open>
  C8 (amended): 960 bytes are 20 ms of audio at the rate of the recordings (24 kHz,
  16 bit, mono). With the destination session open, \<^verbatim>\<open>_streamTo\<close> cuts the buffer into
  consecutive frames that together are the buffer, every frame but the last of exactly
  960 bytes and the last of the 1 to 960 bytes that remain; it sends the frames in
  buffer order on the destination socket and after each send waits on a timer of 20 ms.
  With the destination not open it emits an error and sends nothing.
\<close>

theorem streamTo_frames:
  "rat_of_nat frameSize / bytesPerMs = 20
   \<and> (sessions s label = Some ws \<and> ws < length (sockets s) \<and> readyState (sockets s ! ws) = OPEN
      \<longrightarrow> (\<exists>frames.
            streamTo rt label buffer s
              = (s, concat (map (\<lambda>f. [WsSend ws (InputAudioBufferAppend (to_base64 rt f)),
                                        SetTimeout 20]) frames))
          \<and> concat frames = buffer
          \<and> (\<forall>f \<in> set (butlast frames). length f = 960)
          \<and> (frames \<noteq> [] \<longrightarrow> 0 < length (last frames) \<and> length (last frames) \<le> 960)))
   \<and> (\<not> session_open s label
      \<longrightarrow> streamTo rt label buffer s = (emit_error (SessionNotReady label) s, []))"
proof (intro conjI impI; (elim conjE)?)
  show "rat_of_nat frameSize / bytesPerMs = 20"
    by (simp add: frameSize_def bytesPerMs_eq)
next
  assume ws: "sessions s label = Some ws" "ws < length (sockets s)"
    "readyState (sockets s ! ws) = OPEN"
  from stream_loop_frames [of rt ws 0 buffer] obtain frames where
    loop: "stream_loop rt ws 0 buffer
       = concat (map (\<lambda>f. [WsSend ws (InputAudioBufferAppend (to_base64 rt f)), SetTimeout 20])
                   frames)"
    and cat: "concat frames = drop 0 buffer"
    and ne: "\<forall>f \<in> set frames. f \<noteq> []"
    and full: "\<forall>f \<in> set (butlast frames). length f = frameSize"
    and lst: "frames \<noteq> [] \<longrightarrow> length (last frames) \<le> frameSize"
    by blast
  have a: "streamTo rt label buffer s
              = (s, concat (map (\<lambda>f. [WsSend ws (InputAudioBufferAppend (to_base64 rt f)),
                                        SetTimeout 20]) frames))"
    using ws by (simp add: streamTo_def loop)
  have b: "concat frames = buffer" using cat by simp
  have c: "\<forall>f \<in> set (butlast frames). length f = 960"
    using full by (simp add: frameSize_def)
  have d: "frames \<noteq> [] \<longrightarrow> 0 < length (last frames) \<and> length (last frames) \<le> 960"
    using lst ne by (auto simp: frameSize_def)
  from a b c d show "\<exists>frames.
            streamTo rt label buffer s
              = (s, concat (map (\<lambda>f. [WsSend ws (InputAudioBufferAppend (to_base64 rt f)),
                                        SetTimeout 20]) frames))
          \<and> concat frames = buffer
          \<and> (\<forall>f \<in> set (butlast frames). length f = 960)
          \<and> (frames \<noteq> [] \<longrightarrow> 0 < length (last frames) \<and> length (last frames) \<le> 960)"
    by blast
next
  assume "\<not> session_open s label"
  then show "streamTo rt label buffer s = (emit_error (SessionNotReady label) s, [])"
    by (auto simp: streamTo_def session_open_def split: option.splits)
qed

lemma stream_loop_1000:
  "stream_loop rt ws 0 (replicate 1000 0)
     = [WsSend ws (InputAudioBufferAppend (to_base64 rt (replicate 960 0))), SetTimeout 20,
        WsSend ws (InputAudioBufferAppend (to_base64 rt (replicate 40 0))), SetTimeout 20]"
proof -
  have "stream_loop rt ws 1920 (replicate 1000 0) = []"
    by (subst stream_loop.simps) simp
  then have "stream_loop rt ws 960 (replicate 1000 0)
      = [WsSend ws (InputAudioBufferAppend (to_base64 rt (replicate 40 0))), SetTimeout 20]"
    by (subst stream_loop.simps) (simp add: frameSize_def buffer_slice_def)
  then show ?thesis
    by (subst stream_loop.simps) (simp add: frameSize_def buffer_slice_def)
qed

text \<open>
  C8, as stated, fails: a buffer of 1000 bytes is sent as a frame of 960 bytes and a
  frame of 40 bytes, so not every frame has the fixed size.
\<close>

theorem streamTo_short_last_frame_counterexample:
  "snd (streamTo demo_runtime A (replicate 1000 0) example_active)
     = [WsSend 0 (InputAudioBufferAppend (to_base64 demo_runtime (replicate 960 0))),
        SetTimeout 20,
        WsSend 0 (InputAudioBufferAppend (to_base64 demo_runtime (replicate 40 0))),
        SetTimeout 20]
   \<and> length (replicate 40 (0::byte)) \<noteq> 960"
  by (simp add: streamTo_def example_active_def stream_loop_1000)

theorem streamTo_frames_witness:
  "sessions example_active A = Some 0 \<and> readyState (sockets example_active ! 0) = OPEN
   \<and> (\<exists>frames.
        streamTo demo_runtime A (replicate 1000 0) example_active
          = (example_active,
             concat (map (\<lambda>f. [WsSend 0 (InputAudioBufferAppend (to_base64 demo_runtime f)),
                               SetTimeout 20]) frames))
      \<and> concat frames = replicate 1000 0
      \<and> (\<forall>f \<in> set (butlast frames). length f = 960)
      \<and> (frames \<noteq> [] \<longrightarrow> 0 < length (last frames) \<and> length (last frames) \<le> 960))"
proof -
  have h: "sessions example_active A = Some 0" "0 < length (sockets example_active)"
    "readyState (sockets example_active ! 0) = OPEN"
    by (simp_all add: example_active_def)
  from streamTo_frames [of example_active A 0 demo_runtime "replicate 1000 0"] h
  show ?thesis by blast
qed



subsection \<open>Solo tracks written live\<close>














subsection \<open>Well-formed sessions are an invariant of \<^verbatim>\<open>server/orchestrator.js\<close>\<close>


lemma same_shape_refl: "same_shape s s"
  by (simp add: same_shape_def)

lemma same_shape_trans: "same_shape s s1 \<Longrightarrow> same_shape s1 s2 \<Longrightarrow> same_shape s s2"
  by (simp add: same_shape_def)

lemma map_update_same: "(map f xs)[i := f (xs ! i)] = map f xs"
proof (cases "i < length xs")
  case True
  then have "(map f xs)[i := f (xs ! i)] = (map f xs)[i := map f xs ! i]" by simp
  then show ?thesis by (simp only: list_update_id)
next
  case False
  then show ?thesis by (simp add: list_update_beyond not_less)
qed

lemma map_label_update:
  "map sock_label (xs[i := (xs ! i)\<lparr>outbox := ob\<rparr>]) = map sock_label xs"
  "map sock_label (xs[i := (xs ! i)\<lparr>readyState := r\<rparr>]) = map sock_label xs"
  "map sock_label (xs[i := (xs ! i)\<lparr>session_promise := p\<rparr>]) = map sock_label xs"
  by (simp_all add: map_update map_update_same)

lemma same_shape_sendAudio: "same_shape s (sendAudio rt l buf s)"
  by (auto simp: same_shape_def sendAudio_def transmit_def emit_error_def emit_log_def
      map_label_update split: option.splits)

lemma same_shape_settle_call: "same_shape s (settle_call rt i s)"
proof -
  have "same_shape s (sendAudio rt A buf s)" for buf
    by (rule same_shape_sendAudio)
  then show ?thesis
    by (auto simp: same_shape_def settle_call_def Let_def start_resume_def set_outcome_def
        emit_error_def split: promise_state.splits option.splits)
qed

lemma same_shape_fold: "same_shape s (fold (settle_call rt) is s)"
proof (induction "is" arbitrary: s)
  case Nil
  show ?case by (simp add: same_shape_refl)
next
  case (Cons i "is")
  from same_shape_trans [OF same_shape_settle_call Cons.IH] show ?case by simp
qed

lemma same_shape_resolve: "same_shape s (resolve rt ws s)"
proof (cases "session_promise (sockets s ! ws) = Pending")
  case True
  have "same_shape s (set_promise ws Fulfilled s)"
    by (simp add: same_shape_def set_promise_def map_label_update)
  from same_shape_trans [OF this same_shape_fold] True show ?thesis
    by (simp add: resolve_def settle_starts_def)
next
  case False
  then show ?thesis by (simp add: resolve_def same_shape_refl)
qed

lemma wf_sessions_shape:
  assumes "wf_sessions s" and "same_shape s s'"
  shows "wf_sessions s'"
proof -
  from assms(2) have len: "length (sockets s') = length (sockets s)"
    and lab: "map sock_label (sockets s') = map sock_label (sockets s)"
    and se: "sessions s' = sessions s"
    by (simp_all add: same_shape_def)
  have "sock_label (sockets s' ! k) = sock_label (sockets s ! k)" if "k < length (sockets s)" for k
    using that len lab by (metis nth_map)
  with assms(1) len se show ?thesis
    by (simp add: wf_sessions_def)
qed

lemma wf_sessions_new: "wf_sessions (orch_new seed)"
  by (simp add: wf_sessions_def orch_new_def)

lemma wf_sessions_start:
  assumes "wf_sessions s"
  shows "wf_sessions (start uuidA uuidB s)"
  unfolding wf_sessions_def
proof (intro allI impI)
  fix l k
  assume "sessions (start uuidA uuidB s) l = Some k"
  then have "sessions s l = Some k"
    by (simp add: start_def createSession_def Let_def)
  with assms have k: "k < length (sockets s)" and lab: "sock_label (sockets s ! k) = l"
    by (simp_all add: wf_sessions_def)
  from k lab show "k < length (sockets (start uuidA uuidB s))
      \<and> sock_label (sockets (start uuidA uuidB s) ! k) = l"
    by (simp add: start_def createSession_def Let_def nth_append)
qed

lemma wf_sessions_on_open: "wf_sessions s \<Longrightarrow> wf_sessions (on_open ws s)"
  by (rule wf_sessions_shape)
     (simp_all add: same_shape_def on_open_def emit_log_def map_label_update)

lemma same_shape_ws_send: "ws_send k m s = Inr t \<Longrightarrow> same_shape s t"
  by (auto simp: ws_send_def transmit_def same_shape_def map_label_update split: if_splits)

lemma same_shape_writer_write: "writer_write key c s = Inr t \<Longrightarrow> same_shape s t"
  by (auto simp: writer_write_def same_shape_def split: option.splits sum.splits)

lemma same_shape_forward: "same_shape s (forward_if_open l b s)"
  by (auto simp: forward_if_open_def transmit_def same_shape_def map_label_update
      split: option.splits)

lemma same_shape_emit: "same_shape s (emit_log ev s)" "same_shape s (emit_error err s)"
  by (simp_all add: same_shape_def emit_log_def emit_error_def)

lemma wf_sessions_on_message:
  assumes wf: "wf_sessions s" and ws: "ws < length (sockets s)"
    and step: "on_message rt ws raw s = Inr s'"
  shows "wf_sessions s'"
proof (cases raw)
  case Malformed
  with step have "s' = emit_error SyntaxError s"
    by (simp add: on_message_def JSON_parse_def)
  with wf same_shape_emit(2) show ?thesis
    by (auto intro: wf_sessions_shape)
next
  case JsonNull
  with step show ?thesis
    by (simp add: on_message_def JSON_parse_def)
next
  case (JsonValue m)
  let ?l = "sock_label (sockets s ! ws)"
  show ?thesis
  proof (cases "m_type m = Some ''session.created''")
    case True
    with step JsonValue obtain sid s3 where
      sent: "ws_send ws (SessionUpdate \<lparr>cfg_voice = None, cfg_server_vad = False,
                                      cfg_interrupt_response = None\<rparr>)
               (emit_log (SessionCreated ?l sid) (s\<lparr>sessionIds := (sessionIds s)(?l := sid)\<rparr>))
             = Inr s3"
      and s': "s' = resolve rt ws
                 (s3\<lparr>wavWriters := (wavWriters s3)
                        (Solo ?l \<mapsto> createWavWriter (''session'' @ label_name ?l @ ''.wav'')),
                     sessions := (sessions s3)(?l \<mapsto> ws)\<rparr>)"
      by (auto simp: on_message_def JSON_parse_def Let_def split: option.splits sum.splits)
    let ?s5 = "s3\<lparr>wavWriters := (wavWriters s3)
                        (Solo ?l \<mapsto> createWavWriter (''session'' @ label_name ?l @ ''.wav'')),
                     sessions := (sessions s3)(?l \<mapsto> ws)\<rparr>"
    from same_shape_ws_send [OF sent]
    have len: "length (sockets s3) = length (sockets s)"
      and lab: "map sock_label (sockets s3) = map sock_label (sockets s)"
      and se: "sessions s3 = sessions s"
      by (simp_all add: same_shape_def emit_log_def)
    have labk: "sock_label (sockets s3 ! k) = sock_label (sockets s ! k)"
      if "k < length (sockets s)" for k
      using that len lab by (metis nth_map)
    have "wf_sessions ?s5"
      unfolding wf_sessions_def
    proof (intro allI impI)
      fix l k
      assume a: "sessions ?s5 l = Some k"
      show "k < length (sockets ?s5) \<and> sock_label (sockets ?s5 ! k) = l"
      proof (cases "l = ?l")
        case True
        with a have "k = ws" by simp
        with True ws len labk show ?thesis by simp
      next
        case False
        with a se have "sessions s l = Some k" by simp
        with wf have "k < length (sockets s)" "sock_label (sockets s ! k) = l"
          by (simp_all add: wf_sessions_def)
        with len labk show ?thesis by simp
      qed
    qed
    from wf_sessions_shape [OF this same_shape_resolve] s' show ?thesis by simp
  next
    case notcreated: False
    show ?thesis
    proof (cases "is_audio_payload m")
      case True
      with step JsonValue notcreated obtain b s1 where
        w: "writer_write (Solo ?l) (from_base64 rt b) s = Inr s1"
        and s': "s' = emit_log (AudioChunk ?l (length (from_base64 rt b)))
                        (forward_if_open (other ?l) b s1)"
        by (auto simp: on_message_def JSON_parse_def Let_def split: option.splits sum.splits)
      from same_shape_writer_write [OF w] have "same_shape s s1" .
      from same_shape_trans [OF this same_shape_forward]
      have "same_shape s (forward_if_open (other ?l) b s1)" .
      from same_shape_trans [OF this same_shape_emit(1)] s' have "same_shape s s'" by simp
      with wf show ?thesis by (rule wf_sessions_shape)
    next
      case False
      have "same_shape s s'"
      proof (cases "m_type m = Some ''conversation.item.created''")
        case True
        with step JsonValue notcreated False
        have eq: "(case m_payload m of
               Some (Some (Some role)) \<Rightarrow>
                 if role = ''user'' then
                   (case ws_send ws (ResponseCreate (sessionIds s ?l))
                           (emit_log (UserCommitted ?l) s) of
                      Inl err \<Rightarrow> Inl err
                    | Inr s1 \<Rightarrow> Inr (emit_log (ResponseCreateSent ?l) s1))
                 else Inr s
             | _ \<Rightarrow> Inr s) = Inr s'"
          by (simp add: on_message_def JSON_parse_def Let_def)
        have "s' = s \<or> (\<exists>s1. ws_send ws (ResponseCreate (sessionIds s ?l))
                                  (emit_log (UserCommitted ?l) s) = Inr s1
                            \<and> s' = emit_log (ResponseCreateSent ?l) s1)"
        proof (cases "m_payload m = Some (Some (Some ''user''))")
          case True
          with eq have "(case ws_send ws (ResponseCreate (sessionIds s ?l))
                           (emit_log (UserCommitted ?l) s) of
                      Inl err \<Rightarrow> Inl err
                    | Inr s1 \<Rightarrow> Inr (emit_log (ResponseCreateSent ?l) s1)) = Inr s'"
            by simp
          then show ?thesis
            by (cases "ws_send ws (ResponseCreate (sessionIds s ?l))
                           (emit_log (UserCommitted ?l) s)") auto
        next
          case False
          with eq have "s' = s"
            by (cases "m_payload m") (auto split: option.splits if_splits)
          then show ?thesis by simp
        qed
        then consider "s' = s"
          | s1 where "ws_send ws (ResponseCreate (sessionIds s ?l)) (emit_log (UserCommitted ?l) s)
                        = Inr s1" "s' = emit_log (ResponseCreateSent ?l) s1"
          by blast
        then show ?thesis
        proof cases
          case 1
          then show ?thesis by (simp add: same_shape_refl)
        next
          case 2
          from same_shape_trans [OF same_shape_emit(1) same_shape_ws_send [OF 2(1)]]
          have "same_shape s s1" .
          from same_shape_trans [OF this same_shape_emit(1)] 2(2) show ?thesis by simp
        qed
      next
        case other: False
        with step JsonValue notcreated False
        have "s' = emit_log (OtherEvent ?l (m_type m) m) s"
          by (simp add: on_message_def JSON_parse_def Let_def)
        then show ?thesis by (simp add: same_shape_emit)
      qed
      with wf show ?thesis by (rule wf_sessions_shape)
    qed
  qed
qed



lemma same_shape_writer_end: "same_shape s (writer_end key s)"
  by (simp add: same_shape_def writer_end_def split: option.splits)

lemma same_shape_on_close: "same_shape s (on_close ws s)"
  by (simp add: same_shape_def on_close_def Let_def emit_log_def writer_end_def
      map_label_update split: option.splits)

lemma wf_sessions_on_close: "wf_sessions s \<Longrightarrow> wf_sessions (on_close ws s)"
  by (rule wf_sessions_shape [OF _ same_shape_on_close])

lemma same_shape_reject: "same_shape s (reject rt ws err s)"
proof (cases "session_promise (sockets s ! ws) = Pending")
  case True
  have "same_shape s (set_promise ws (Rejected err) s)"
    by (simp add: same_shape_def set_promise_def map_label_update)
  from same_shape_trans [OF this same_shape_fold] True show ?thesis
    by (simp add: reject_def settle_starts_def)
next
  case False
  then show ?thesis by (simp add: reject_def same_shape_refl)
qed

lemma wf_sessions_on_error: "wf_sessions s \<Longrightarrow> wf_sessions (on_error rt ws err s)"
  unfolding on_error_def
  by (rule wf_sessions_shape [OF _ same_shape_trans [OF same_shape_emit(2) same_shape_reject]])

lemma same_shape_stop_label: "same_shape s (stop_label label s)"
  by (simp add: same_shape_def stop_label_def Let_def emit_log_def writer_end_def
      map_label_update split: option.splits)

lemma wf_sessions_stop: "wf_sessions s \<Longrightarrow> wf_sessions (stop s)"
  unfolding stop_def
  by (rule wf_sessions_shape [OF _ same_shape_trans [OF same_shape_stop_label same_shape_stop_label]])

end
